theory Spec2Isabelle
  imports Main "HOL-Library.Word"
begin

unbundle bit_operations_syntax

section \<open>The X11 screen driver: data model\<close>

text \<open>
  A shallow embedding of \<^verbatim>\<open>shiny/driver/x11driver/screen.go\<close>. The screen value
  \<^verbatim>\<open>*screenImpl\<close> is shared and mutated in place; the model passes one state record
  through every operation. The X11 connection, the operating system and the Go runtime
  are outside the file: every fallible call to them takes its outcome from an
  environment record, and every call made is appended to the \<open>trace\<close> of the state, in
  program order.
\<close>

type_synonym Window = "32 word"
type_synonym Atom = "32 word"
type_synonym Gcontext = "32 word"
type_synonym Picture = "32 word"
type_synonym Pictformat = "32 word"
type_synonym Visualid = "32 word"
type_synonym Colormap = "32 word"
type_synonym Drawable = "32 word"
type_synonym Seg = "32 word"

text \<open>Go's \<^verbatim>\<open>int\<close> and \<^verbatim>\<open>int64\<close> on amd64, and \<^verbatim>\<open>unsafe.Pointer\<close>.\<close>

type_synonym goint = "64 word"
type_synonym pointer = "64 word"

text \<open>\<^verbatim>\<open>image.Point\<close>, \<^verbatim>\<open>image.Rectangle\<close>, a byte slice header and \<^verbatim>\<open>image.RGBA\<close>.\<close>

record Point =
  X :: goint
  Y :: goint

record Rectangle =
  Min :: Point
  Max :: Point

record byte_slice =
  sl_ptr :: pointer
  sl_len :: goint
  sl_cap :: goint

record RGBA =
  Pix :: byte_slice
  Stride :: goint
  Rect :: Rectangle

text \<open>
  Modelled from the spec: the upload state \<open>b_uploading\<close> of a buffer, busy or idle;
  \<^verbatim>\<open>bufferImpl\<close> is declared outside the file. The other fields are those that the
  composite literal of \<^verbatim>\<open>NewBuffer\<close> sets, which leaves the upload state at its zero
  value. The back pointer \<^verbatim>\<open>s\<close> is the state itself.
\<close>

record bufferImpl =
  b_addr :: pointer
  b_buf :: byte_slice
  b_rgba :: RGBA
  b_size :: Point
  b_xs :: Seg
  b_uploading :: bool

text \<open>
  Values of the interface \<^verbatim>\<open>screen.Buffer\<close>: nil, a \<^verbatim>\<open>*bufferImpl\<close> (a pointer
  into the heap of buffers), or another type. Of \<^verbatim>\<open>screen.UploadedEvent\<close> the file reads
  the buffer only; \<open>ev_Uploaded\<close> stands for the rest of the event.
\<close>

datatype Buffer = NilBuffer | BufferImplPtr nat | ForeignBuffer

record UploadedEvent =
  ev_Buffer :: Buffer
  ev_Uploaded :: nat

text \<open>\<^verbatim>\<open>completion\<close>: the sender is an interface value, \<open>None\<close> when nil.\<close>

record completion =
  sender :: "nat option"
  event :: UploadedEvent

record windowImpl =
  w_xw :: Window
  w_xg :: Gcontext
  w_xp :: Picture
  w_pump :: nat
  w_xevents :: nat

text \<open>The events \<^verbatim>\<open>run\<close> tells apart, each with the field the loop reads.\<close>

datatype xevent =
    ShmCompletionEvent "16 word"
  | ClientMessageEvent Window
  | ConfigureNotifyEvent Window
  | DestroyNotifyEvent Window
  | ExposeEvent Window
  | FocusInEvent Window
  | FocusOutEvent Window
  | KeyPressEvent Window
  | KeyReleaseEvent Window
  | ButtonPressEvent Window
  | ButtonReleaseEvent Window
  | MotionNotifyEvent Window
  | OtherEvent nat

record CreateWindowReq =
  cw_Depth :: "8 word"
  cw_Wid :: Window
  cw_Parent :: Window
  cw_X :: "16 word"
  cw_Y :: "16 word"
  cw_Width :: "16 word"
  cw_Height :: "16 word"
  cw_BorderWidth :: "16 word"
  cw_Class :: "16 word"
  cw_Visual :: Visualid
  cw_ValueMask :: "32 word"
  cw_ValueList :: "32 word list"

record ChangePropertyReq =
  cp_Mode :: "8 word"
  cp_Window :: Window
  cp_Property :: Atom
  cp_Type :: Atom
  cp_Format :: "8 word"
  cp_DataLen :: "32 word"
  cp_Data :: "8 word list"

text \<open>Every call that leaves the file, and every log line.\<close>

datatype call =
    NewWindowId
  | NewGcontextId
  | NewPictureId
  | NewColormapId
  | NewSegId
  | InternAtom string
  | QueryPictFormats
  | ShmOpen goint
  | ShmClose pointer
  | ShmAttach Seg "32 word" bool
  | CreateWindow CreateWindowReq
  | CreateColormapChecked "8 word" Colormap Window Visualid
  | ChangeProperty ChangePropertyReq
  | CreateGC Gcontext Drawable
  | CreatePicture Picture Drawable Pictformat
  | MapWindow Window
  | PumpMake
  | GoScreenRun
  | GoWindowRun nat
  | GoSend nat UploadedEvent
  | ChanSend nat xevent
  | ChanClose nat
  | LogPrintf string

datatype error =
    InvalidBufferSize Point
  | NewSegIdFailed string
  | ShmOpenFailed string
  | NewWindowIdFailed string
  | NewGcontextIdFailed string
  | NewPictureIdFailed string
  | NewColormapIdFailed string
  | CreateColormapFailed string
  | UnsupportedRootDepth "8 word"
  | InternAtomFailed string
  | InternAtomNilReply
  | QueryPictFormatsFailed string
  | NoMatchingPictformat "8 word"
  | NoMatchingVisualid

datatype panic =
    SliceBoundsOutOfRange
  | IndexOutOfRange
  | InterfaceConversion
  | NilDereference
  | CloseOfClosedChannel
  | SendOnClosedChannel

record VisualInfo =
  VisualId :: Visualid
  v_RedMask :: "32 word"
  v_GreenMask :: "32 word"
  v_BlueMask :: "32 word"

record DepthInfo =
  d_Depth :: "8 word"
  Visuals :: "VisualInfo list"

record ScreenInfo =
  Root :: Window
  RootVisual :: Visualid
  RootDepth :: "8 word"
  AllowedDepths :: "DepthInfo list"

text \<open>
  \<^verbatim>\<open>screenImpl\<close> with the heap it points into: \<open>buffers\<close> holds pointers into
  \<open>bufheap\<close>, a window holds the number of its channel. A channel is unbuffered: a send
  hands the event to the receiving goroutine of the window, and \<open>chan_queue\<close> lists what
  was handed over, in order.
\<close>

record state =
  xsi :: ScreenInfo
  atomWMDeleteWindow :: Atom
  atomWMProtocols :: Atom
  atomWMTakeFocus :: Atom
  pictformat24 :: Pictformat
  pictformat32 :: Pictformat
  gcontext32 :: Gcontext
  window32 :: Window
  buffers :: "Seg \<rightharpoonup> nat"
  uploads :: "16 word \<rightharpoonup> completion"
  windows :: "Window \<rightharpoonup> windowImpl"
  bufheap :: "nat \<rightharpoonup> bufferImpl"
  next_buf :: nat
  chan_closed :: "nat \<Rightarrow> bool"
  chan_queue :: "nat \<Rightarrow> xevent list"
  next_chan :: nat
  trace :: "call list"

definition do_call :: "call \<Rightarrow> state \<Rightarrow> state" where
  "do_call c s = s\<lparr>trace := trace s @ [c]\<rparr>"

section \<open>NewBuffer\<close>

definition maxShmSide :: goint where
  "maxShmSide = 0x00007fff"

definition maxShmSize :: goint where
  "maxShmSize = 0x10000000"

text \<open>
  What the outside answers during one call of \<^verbatim>\<open>NewBuffer\<close>. \<^verbatim>\<open>shm.Attach\<close> is sent
  unchecked and its cookie is dropped: \<open>attach_reply\<close> is the error the server would
  report for it (\<open>None\<close> when it accepts), which the code never reads.
\<close>

record NewBuffer_env =
  newSegId_res :: "string + Seg"
  shmOpen_res :: "string + (goint \<times> pointer)"
  attach_reply :: "string option"

text \<open>The size check of line 170; \<open>||\<close> evaluates left to right and stops early.\<close>

definition invalid_size :: "Point \<Rightarrow> bool" where
  "invalid_size sz =
     (let w = X sz; h = Y sz in
      w <s 0 \<or> maxShmSide <s w \<or> h <s 0 \<or> maxShmSide <s h \<or> maxShmSize <s 4 * w * h)"

text \<open>
  \<^verbatim>\<open>(*a)[:bufLen:bufLen]\<close> on an array of \<open>maxShmSize\<close> bytes: it panics unless
  \<open>0 \<le> bufLen \<le> maxShmSize\<close>.
\<close>

definition slice_array :: "pointer \<Rightarrow> goint \<Rightarrow> panic + byte_slice" where
  "slice_array a n =
     (if n <s 0 \<or> maxShmSize <s n then Inl SliceBoundsOutOfRange
      else Inr \<lparr>sl_ptr = a, sl_len = n, sl_cap = n\<rparr>)"

text \<open>Lines 188 to 213: what runs after the deferred function is registered.\<close>

definition NewBuffer_body ::
  "NewBuffer_env \<Rightarrow> Point \<Rightarrow> Seg \<Rightarrow> goint \<Rightarrow> pointer \<Rightarrow> goint \<Rightarrow> state \<Rightarrow>
     panic + ((error + nat) \<times> state)" where
  "NewBuffer_body env sz xs shmid addr bufLen s =
     (case slice_array addr bufLen of
        Inl p \<Rightarrow> Inl p
      | Inr buf \<Rightarrow>
          let s1 = do_call (ShmAttach xs (ucast shmid) False) s;
              b = \<lparr>b_addr = addr, b_buf = buf,
                   b_rgba = \<lparr>Pix = buf, Stride = 4 * X sz,
                             Rect = \<lparr>Min = \<lparr>X = 0, Y = 0\<rparr>, Max = sz\<rparr>\<rparr>,
                   b_size = sz, b_xs = xs, b_uploading = False\<rparr>;
              p = next_buf s1;
              s2 = s1\<lparr>bufheap := (bufheap s1)(p \<mapsto> b), next_buf := Suc p\<rparr>;
              s3 = s2\<lparr>buffers := (buffers s2)(b_xs b \<mapsto> p)\<rparr>
          in Inr (Inr p, s3))"

text \<open>
  The deferred function of lines 183 to 187: it runs when the body returns, and closes
  the region when \<^verbatim>\<open>retErr\<close> is not nil. A panic unwinds through it with \<^verbatim>\<open>retErr\<close> nil.
\<close>

definition NewBuffer_deferred ::
  "pointer \<Rightarrow> panic + ((error + nat) \<times> state) \<Rightarrow> panic + ((error + nat) \<times> state)" where
  "NewBuffer_deferred addr r =
     (case r of
        Inl p \<Rightarrow> Inl p
      | Inr (Inl e, s) \<Rightarrow> Inr (Inl e, do_call (ShmClose addr) s)
      | Inr (Inr b, s) \<Rightarrow> Inr (Inr b, s))"

definition NewBuffer ::
  "NewBuffer_env \<Rightarrow> Point \<Rightarrow> state \<Rightarrow> panic + ((error + nat) \<times> state)" where
  "NewBuffer env sz s =
     (if invalid_size sz then Inr (Inl (InvalidBufferSize sz), s)
      else
        let s1 = do_call NewSegId s in
        (case newSegId_res env of
           Inl err \<Rightarrow> Inr (Inl (NewSegIdFailed err), s1)
         | Inr xs \<Rightarrow>
             let bufLen = 4 * X sz * Y sz;
                 s2 = do_call (ShmOpen bufLen) s1 in
             (case shmOpen_res env of
                Inl err \<Rightarrow> Inr (Inl (ShmOpenFailed err), s2)
              | Inr (shmid, addr) \<Rightarrow>
                  NewBuffer_deferred addr
                    (NewBuffer_body env sz xs shmid addr bufLen s2))))"

section \<open>setProperty\<close>

text \<open>Constants of the X11 protocol, as package \<^verbatim>\<open>xproto\<close> and \<^verbatim>\<open>render\<close> give them.\<close>

definition PropModeReplace :: "8 word" where "PropModeReplace = 0"
definition AtomAtom :: Atom where "AtomAtom = 4"
definition WindowClassInputOutput :: "16 word" where "WindowClassInputOutput = 1"
definition ColormapAllocNone :: "8 word" where "ColormapAllocNone = 0"
definition CwBorderPixel :: "32 word" where "CwBorderPixel = 8"
definition CwEventMask :: "32 word" where "CwEventMask = 2048"
definition CwColormap :: "32 word" where "CwColormap = 8192"
definition EventMaskKeyPress :: "32 word" where "EventMaskKeyPress = 1"
definition EventMaskKeyRelease :: "32 word" where "EventMaskKeyRelease = 2"
definition EventMaskButtonPress :: "32 word" where "EventMaskButtonPress = 4"
definition EventMaskButtonRelease :: "32 word" where "EventMaskButtonRelease = 8"
definition EventMaskPointerMotion :: "32 word" where "EventMaskPointerMotion = 64"
definition EventMaskExposure :: "32 word" where "EventMaskExposure = 32768"
definition EventMaskStructureNotify :: "32 word" where "EventMaskStructureNotify = 131072"
definition EventMaskFocusChange :: "32 word" where "EventMaskFocusChange = 2097152"
definition PictTypeDirect :: "8 word" where "PictTypeDirect = 1"

text \<open>\<^verbatim>\<open>b[i] = v\<close>: Go checks the index and panics when it is out of range.\<close>

definition store_byte :: "8 word list \<Rightarrow> nat \<Rightarrow> 8 word \<Rightarrow> panic + 8 word list" where
  "store_byte b i v = (if i < length b then Inr (b[i := v]) else Inl IndexOutOfRange)"

text \<open>One pass of the loop body of lines 424 to 427, for index \<open>i\<close> and value \<open>v\<close>.\<close>

definition pack_atom :: "8 word list \<Rightarrow> nat \<Rightarrow> Atom \<Rightarrow> panic + 8 word list" where
  "pack_atom b i v =
     (case store_byte b (4 * i + 0) (ucast (drop_bit 0 v)) of
        Inl p \<Rightarrow> Inl p
      | Inr b0 \<Rightarrow>
     (case store_byte b0 (4 * i + 1) (ucast (drop_bit 8 v)) of
        Inl p \<Rightarrow> Inl p
      | Inr b1 \<Rightarrow>
     (case store_byte b1 (4 * i + 2) (ucast (drop_bit 16 v)) of
        Inl p \<Rightarrow> Inl p
      | Inr b2 \<Rightarrow> store_byte b2 (4 * i + 3) (ucast (drop_bit 24 v)))))"

text \<open>\<^verbatim>\<open>for i, v := range values\<close>, from index \<open>i\<close> on.\<close>

fun pack_atoms :: "nat \<Rightarrow> Atom list \<Rightarrow> 8 word list \<Rightarrow> panic + 8 word list" where
  "pack_atoms i [] b = Inr b"
| "pack_atoms i (v # vs) b =
     (case pack_atom b i v of Inl p \<Rightarrow> Inl p | Inr b' \<Rightarrow> pack_atoms (Suc i) vs b')"

definition setProperty :: "state \<Rightarrow> Window \<Rightarrow> Atom \<Rightarrow> Atom list \<Rightarrow> panic + state" where
  "setProperty s xw prop values =
     (case pack_atoms 0 values (replicate (length values * 4) 0) of
        Inl p \<Rightarrow> Inl p
      | Inr b \<Rightarrow>
          Inr (do_call (ChangeProperty
                 \<lparr>cp_Mode = PropModeReplace, cp_Window = xw, cp_Property = prop,
                  cp_Type = AtomAtom, cp_Format = 32,
                  cp_DataLen = word_of_nat (length values), cp_Data = b\<rparr>) s))"

section \<open>NewWindow\<close>

record NewWindow_env =
  newWindowId_res :: "string + Window"
  newGcontextId_res :: "string + Gcontext"
  newPictureId_res :: "string + Picture"
  pump_Make_res :: nat

definition window_event_mask :: "32 word" where
  "window_event_mask =
     (0 OR EventMaskKeyPress OR EventMaskKeyRelease OR EventMaskButtonPress OR
      EventMaskButtonRelease OR EventMaskPointerMotion OR EventMaskExposure OR
      EventMaskStructureNotify OR EventMaskFocusChange)"

text \<open>\<^verbatim>\<open>make(chan xgb.Event)\<close>: a new, open, empty channel.\<close>

definition make_chan :: "state \<Rightarrow> nat \<times> state" where
  "make_chan s =
     (let c = next_chan s in
      (c, s\<lparr>chan_closed := (chan_closed s)(c := False),
            chan_queue := (chan_queue s)(c := []),
            next_chan := Suc c\<rparr>))"

text \<open>
  Lines 269 to 303, once the three ids are there and the depth is supported: the window
  value, its goroutine, the registration under the lock, and the requests to the server.
\<close>

definition NewWindow_create ::
  "NewWindow_env \<Rightarrow> Window \<Rightarrow> Gcontext \<Rightarrow> Picture \<Rightarrow> Pictformat \<Rightarrow> state \<Rightarrow>
     panic + ((error + windowImpl) \<times> state)" where
  "NewWindow_create env xw xg xp pictformat s =
     (let width = 1024; height = 768;
          s1 = do_call PumpMake s;
          (c, s2) = make_chan s1;
          w = \<lparr>w_xw = xw, w_xg = xg, w_xp = xp, w_pump = pump_Make_res env, w_xevents = c\<rparr>;
          s3 = do_call (GoWindowRun c) s2;
          s4 = s3\<lparr>windows := (windows s3)(xw \<mapsto> w)\<rparr>;
          s5 = do_call (CreateWindow
                 \<lparr>cw_Depth = RootDepth (xsi s4), cw_Wid = xw, cw_Parent = Root (xsi s4),
                  cw_X = 0, cw_Y = 0, cw_Width = width, cw_Height = height,
                  cw_BorderWidth = 0, cw_Class = WindowClassInputOutput,
                  cw_Visual = RootVisual (xsi s4), cw_ValueMask = CwEventMask,
                  cw_ValueList = [window_event_mask]\<rparr>) s4
      in (case setProperty s5 xw (atomWMProtocols s5)
                 [atomWMDeleteWindow s5, atomWMTakeFocus s5] of
            Inl p \<Rightarrow> Inl p
          | Inr s6 \<Rightarrow>
              let s7 = do_call (CreateGC xg xw) s6;
                  s8 = do_call (CreatePicture xp xw pictformat) s7;
                  s9 = do_call (MapWindow xw) s8
              in Inr (Inr w, s9)))"

text \<open>
  \<^verbatim>\<open>NewWindow\<close>. The options are a parameter that the body does not mention, as in the
  source (\<^verbatim>\<open>// TODO: look at opts\<close>); \<open>None\<close> is the nil pointer.
\<close>

definition NewWindow ::
  "NewWindow_env \<Rightarrow> 'o option \<Rightarrow> state \<Rightarrow> panic + ((error + windowImpl) \<times> state)" where
  "NewWindow env opts s =
     (let s1 = do_call NewWindowId s in
      (case newWindowId_res env of
         Inl err \<Rightarrow> Inr (Inl (NewWindowIdFailed err), s1)
       | Inr xw \<Rightarrow>
     (let s2 = do_call NewGcontextId s1 in
      (case newGcontextId_res env of
         Inl err \<Rightarrow> Inr (Inl (NewGcontextIdFailed err), s2)
       | Inr xg \<Rightarrow>
     (let s3 = do_call NewPictureId s2 in
      (case newPictureId_res env of
         Inl err \<Rightarrow> Inr (Inl (NewPictureIdFailed err), s3)
       | Inr xp \<Rightarrow>
           if RootDepth (xsi s3) = 24 then NewWindow_create env xw xg xp (pictformat24 s3) s3
           else if RootDepth (xsi s3) = 32 then
             NewWindow_create env xw xg xp (pictformat32 s3) s3
           else Inr (Inl (UnsupportedRootDepth (RootDepth (xsi s3))), s3)))))))"

section \<open>Construction: atoms, picture formats, the depth-32 window\<close>

record Directformat =
  RedShift :: "16 word"
  RedMask :: "16 word"
  GreenShift :: "16 word"
  GreenMask :: "16 word"
  BlueShift :: "16 word"
  BlueMask :: "16 word"
  AlphaShift :: "16 word"
  AlphaMask :: "16 word"

record Pictforminfo =
  pf_Id :: Pictformat
  pf_Type :: "8 word"
  pf_Depth :: "8 word"
  pf_Direct :: Directformat
  pf_Colormap :: Colormap

text \<open>The format \<^verbatim>\<open>findPictformat\<close> looks for, lines 351 to 364.\<close>

definition want_format :: "8 word \<Rightarrow> Directformat" where
  "want_format depth =
     (let want = \<lparr>RedShift = 16, RedMask = 0xff, GreenShift = 8, GreenMask = 0xff,
                  BlueShift = 0, BlueMask = 0xff, AlphaShift = 24, AlphaMask = 0xff\<rparr>
      in if depth = 24 then want\<lparr>AlphaShift := 0, AlphaMask := 0x00\<rparr> else want)"

fun find_format :: "Pictforminfo list \<Rightarrow> 8 word \<Rightarrow> Directformat \<Rightarrow> error + Pictformat" where
  "find_format [] depth want = Inl (NoMatchingPictformat depth)"
| "find_format (f # fs) depth want =
     (if pf_Type f = PictTypeDirect \<and> pf_Depth f = depth \<and> pf_Direct f = want
      then Inr (pf_Id f)
      else find_format fs depth want)"

definition findPictformat :: "Pictforminfo list \<Rightarrow> 8 word \<Rightarrow> error + Pictformat" where
  "findPictformat fs depth = find_format fs depth (want_format depth)"

text \<open>
  What the server answers while the screen is constructed. An \<^verbatim>\<open>InternAtom\<close> reply is
  an error, a nil reply (\<open>Inr None\<close>) or an atom.
\<close>

record newScreenImpl_env =
  defaultScreen :: ScreenInfo
  internAtom_res :: "string \<Rightarrow> string + Atom option"
  queryPictFormats_res :: "string + Pictforminfo list"
  newColormapId_res :: "string + Colormap"
  createColormap_check :: "string option"
  init_newWindowId_res :: "string + Window"
  init_newGcontextId_res :: "string + Gcontext"

definition internAtom :: "newScreenImpl_env \<Rightarrow> string \<Rightarrow> state \<Rightarrow> (error + Atom) \<times> state" where
  "internAtom env name s =
     (let s1 = do_call (InternAtom name) s in
      (case internAtom_res env name of
         Inl err \<Rightarrow> (Inl (InternAtomFailed err), s1)
       | Inr None \<Rightarrow> (Inl InternAtomNilReply, s1)
       | Inr (Some a) \<Rightarrow> (Inr a, s1)))"

text \<open>
  \<^verbatim>\<open>s.atom, err = s.internAtom(name)\<close> stores the first result also when the second is
  an error: then it is 0. The result is the error, \<open>None\<close> for nil.
\<close>

definition initAtoms :: "newScreenImpl_env \<Rightarrow> state \<Rightarrow> error option \<times> state" where
  "initAtoms env s =
     (case internAtom env ''WM_DELETE_WINDOW'' s of
        (Inl e, s1) \<Rightarrow> (Some e, s1\<lparr>atomWMDeleteWindow := 0\<rparr>)
      | (Inr a, s1) \<Rightarrow>
     (case internAtom env ''WM_PROTOCOLS'' (s1\<lparr>atomWMDeleteWindow := a\<rparr>) of
        (Inl e, s2) \<Rightarrow> (Some e, s2\<lparr>atomWMProtocols := 0\<rparr>)
      | (Inr b, s2) \<Rightarrow>
     (case internAtom env ''WM_TAKE_FOCUS'' (s2\<lparr>atomWMProtocols := b\<rparr>) of
        (Inl e, s3) \<Rightarrow> (Some e, s3\<lparr>atomWMTakeFocus := 0\<rparr>)
      | (Inr c, s3) \<Rightarrow> (None, s3\<lparr>atomWMTakeFocus := c\<rparr>))))"

definition initPictformats :: "newScreenImpl_env \<Rightarrow> state \<Rightarrow> error option \<times> state" where
  "initPictformats env s =
     (let s1 = do_call QueryPictFormats s in
      (case queryPictFormats_res env of
         Inl err \<Rightarrow> (Some (QueryPictFormatsFailed err), s1)
       | Inr formats \<Rightarrow>
      (case findPictformat formats 24 of
         Inl e \<Rightarrow> (Some e, s1\<lparr>pictformat24 := 0\<rparr>)
       | Inr p24 \<Rightarrow>
      (case findPictformat formats 32 of
         Inl e \<Rightarrow> (Some e, s1\<lparr>pictformat24 := p24, pictformat32 := 0\<rparr>)
       | Inr p32 \<Rightarrow> (None, s1\<lparr>pictformat24 := p24, pictformat32 := p32\<rparr>)))))"

text \<open>The inner loop of \<^verbatim>\<open>findVisual\<close> over the visuals of one depth.\<close>

fun find_visual_in :: "VisualInfo list \<Rightarrow> Visualid option" where
  "find_visual_in [] = None"
| "find_visual_in (v # vs) =
     (if v_RedMask v = 0xff0000 \<and> v_GreenMask v = 0xff00 \<and> v_BlueMask v = 0xff
      then Some (VisualId v)
      else find_visual_in vs)"

fun find_visual_depths :: "DepthInfo list \<Rightarrow> 8 word \<Rightarrow> error + Visualid" where
  "find_visual_depths [] depth = Inl NoMatchingVisualid"
| "find_visual_depths (d # ds) depth =
     (if d_Depth d \<noteq> depth then find_visual_depths ds depth
      else (case find_visual_in (Visuals d) of
              Some v \<Rightarrow> Inr v
            | None \<Rightarrow> find_visual_depths ds depth))"

definition findVisual :: "ScreenInfo \<Rightarrow> 8 word \<Rightarrow> error + Visualid" where
  "findVisual si depth = find_visual_depths (AllowedDepths si) depth"

definition initWindow32 :: "newScreenImpl_env \<Rightarrow> state \<Rightarrow> error option \<times> state" where
  "initWindow32 env s =
     (case findVisual (xsi s) 32 of
        Inl e \<Rightarrow> (Some e, s)
      | Inr visualid \<Rightarrow>
     (let s1 = do_call NewColormapId s in
      (case newColormapId_res env of
         Inl err \<Rightarrow> (Some (NewColormapIdFailed err), s1)
       | Inr colormap \<Rightarrow>
     (let s2 = do_call (CreateColormapChecked ColormapAllocNone colormap
                          (Root (xsi s1)) visualid) s1 in
      (case createColormap_check env of
         Some err \<Rightarrow> (Some (CreateColormapFailed err), s2)
       | None \<Rightarrow>
     (let s3 = do_call NewWindowId s2 in
      (case init_newWindowId_res env of
         Inl err \<Rightarrow> (Some (NewWindowIdFailed err), s3\<lparr>window32 := 0\<rparr>)
       | Inr xw \<Rightarrow>
     (let s4 = do_call NewGcontextId (s3\<lparr>window32 := xw\<rparr>) in
      (case init_newGcontextId_res env of
         Inl err \<Rightarrow> (Some (NewGcontextIdFailed err), s4\<lparr>gcontext32 := 0\<rparr>)
       | Inr xg \<Rightarrow>
           let s5 = s4\<lparr>gcontext32 := xg\<rparr>;
               s6 = do_call (CreateWindow
                      \<lparr>cw_Depth = 32, cw_Wid = window32 s5, cw_Parent = Root (xsi s5),
                       cw_X = 0, cw_Y = 0, cw_Width = 1, cw_Height = 1,
                       cw_BorderWidth = 0, cw_Class = WindowClassInputOutput,
                       cw_Visual = visualid, cw_ValueMask = CwBorderPixel OR CwColormap,
                       cw_ValueList = [0, colormap]\<rparr>) s5;
               s7 = do_call (CreateGC (gcontext32 s6) (window32 s6)) s6
           in (None, s7))))))))))"

text \<open>The composite literal of lines 55 to 61: empty tables, every other field zero.\<close>

definition new_screen :: "ScreenInfo \<Rightarrow> state" where
  "new_screen si =
     \<lparr>xsi = si, atomWMDeleteWindow = 0, atomWMProtocols = 0, atomWMTakeFocus = 0,
      pictformat24 = 0, pictformat32 = 0, gcontext32 = 0, window32 = 0,
      buffers = Map.empty, uploads = Map.empty, windows = Map.empty,
      bufheap = Map.empty, next_buf = 0,
      chan_closed = (\<lambda>c. False), chan_queue = (\<lambda>c. []), next_chan = 0,
      trace = []\<rparr>"

text \<open>\<^verbatim>\<open>newScreenImpl\<close>: on an error the instance is dropped and nil is returned.\<close>

definition newScreenImpl :: "newScreenImpl_env \<Rightarrow> error + state" where
  "newScreenImpl env =
     (let s = new_screen (defaultScreen env) in
      (case initAtoms env s of
         (Some e, s1) \<Rightarrow> Inl e
       | (None, s1) \<Rightarrow>
      (case initPictformats env s1 of
         (Some e, s2) \<Rightarrow> Inl e
       | (None, s2) \<Rightarrow>
      (case initWindow32 env s2 of
         (Some e, s3) \<Rightarrow> Inl e
       | (None, s3) \<Rightarrow> Inr (do_call GoScreenRun s3)))))"

section \<open>The dispatch loop\<close>

text \<open>
  Modelled from the spec: \<^verbatim>\<open>postUpload\<close> is a method of \<^verbatim>\<open>bufferImpl\<close> that is
  defined outside the file. The specification has it mark the upload state of the
  buffer idle. A nil receiver fails at its first field access.
\<close>

definition postUpload :: "nat \<Rightarrow> state \<Rightarrow> panic + state" where
  "postUpload p s =
     (case bufheap s p of
        None \<Rightarrow> Inl NilDereference
      | Some b \<Rightarrow> Inr (s\<lparr>bufheap := (bufheap s)(p \<mapsto> b\<lparr>b_uploading := False\<rparr>)\<rparr>))"

text \<open>
  \<^verbatim>\<open>handleCompletion\<close>, for the sequence number of the event, with the method
  \<^verbatim>\<open>postUpload\<close> that it calls as a parameter. The type assertion \<^verbatim>\<open>.(*bufferImpl)\<close>
  panics on any other value of the interface. The statements of the function read
  \<^verbatim>\<open>s.uploads\<close> once, under the lock, and never write it.
\<close>

definition handleCompletion_with ::
  "(nat \<Rightarrow> state \<Rightarrow> panic + state) \<Rightarrow> state \<Rightarrow> 16 word \<Rightarrow> panic + state" where
  "handleCompletion_with post s sq =
     (case uploads s sq of
        None \<Rightarrow>
          Inr (do_call (LogPrintf ''x11driver: no matching upload for a SHM completion event'') s)
      | Some c \<Rightarrow>
          (case ev_Buffer (event c) of
             BufferImplPtr p \<Rightarrow>
               (case post p s of
                  Inl pn \<Rightarrow> Inl pn
                | Inr s1 \<Rightarrow>
                    (case sender c of
                       None \<Rightarrow> Inr s1
                     | Some r \<Rightarrow> Inr (do_call (GoSend r (event c)) s1)))
           | NilBuffer \<Rightarrow> Inl InterfaceConversion
           | ForeignBuffer \<Rightarrow> Inl InterfaceConversion))"

text \<open>\<^verbatim>\<open>handleCompletion\<close> with the \<^verbatim>\<open>postUpload\<close> of the specification.\<close>

definition handleCompletion :: "state \<Rightarrow> 16 word \<Rightarrow> panic + state" where
  "handleCompletion s sq = handleCompletion_with postUpload s sq"

text \<open>
  The type switch of lines 83 to 113: the window of the event and whether it is a
  destroy notification; \<open>None\<close> for the events that the window path does not take.
\<close>

fun event_window :: "xevent \<Rightarrow> (Window \<times> bool) option" where
  "event_window (ShmCompletionEvent sq) = None"
| "event_window (ClientMessageEvent xw) = Some (xw, False)"
| "event_window (ConfigureNotifyEvent xw) = Some (xw, False)"
| "event_window (DestroyNotifyEvent xw) = Some (xw, True)"
| "event_window (ExposeEvent xw) = Some (xw, False)"
| "event_window (FocusInEvent xw) = Some (xw, False)"
| "event_window (FocusOutEvent xw) = Some (xw, False)"
| "event_window (KeyPressEvent xw) = Some (xw, False)"
| "event_window (KeyReleaseEvent xw) = Some (xw, False)"
| "event_window (ButtonPressEvent xw) = Some (xw, False)"
| "event_window (ButtonReleaseEvent xw) = Some (xw, False)"
| "event_window (MotionNotifyEvent xw) = Some (xw, False)"
| "event_window (OtherEvent n) = None"

text \<open>The \<^verbatim>\<open>%T\<close> of the log line of line 123.\<close>

fun type_name :: "xevent \<Rightarrow> string" where
  "type_name (ShmCompletionEvent sq) = ''shm.CompletionEvent''"
| "type_name (ClientMessageEvent xw) = ''xproto.ClientMessageEvent''"
| "type_name (ConfigureNotifyEvent xw) = ''xproto.ConfigureNotifyEvent''"
| "type_name (DestroyNotifyEvent xw) = ''xproto.DestroyNotifyEvent''"
| "type_name (ExposeEvent xw) = ''xproto.ExposeEvent''"
| "type_name (FocusInEvent xw) = ''xproto.FocusInEvent''"
| "type_name (FocusOutEvent xw) = ''xproto.FocusOutEvent''"
| "type_name (KeyPressEvent xw) = ''xproto.KeyPressEvent''"
| "type_name (KeyReleaseEvent xw) = ''xproto.KeyReleaseEvent''"
| "type_name (ButtonPressEvent xw) = ''xproto.ButtonPressEvent''"
| "type_name (ButtonReleaseEvent xw) = ''xproto.ButtonReleaseEvent''"
| "type_name (MotionNotifyEvent xw) = ''xproto.MotionNotifyEvent''"
| "type_name (OtherEvent n) = ''other''"

text \<open>\<^verbatim>\<open>close(c)\<close> and \<^verbatim>\<open>c <- ev\<close>; both panic on a closed channel.\<close>

definition chan_close :: "nat \<Rightarrow> state \<Rightarrow> panic + state" where
  "chan_close c s =
     (if chan_closed s c then Inl CloseOfClosedChannel
      else Inr (do_call (ChanClose c) (s\<lparr>chan_closed := (chan_closed s)(c := True)\<rparr>)))"

definition chan_send :: "nat \<Rightarrow> xevent \<Rightarrow> state \<Rightarrow> panic + state" where
  "chan_send c ev s =
     (if chan_closed s c then Inl SendOnClosedChannel
      else Inr (do_call (ChanSend c ev)
                  (s\<lparr>chan_queue := (chan_queue s)(c := chan_queue s c @ [ev])\<rparr>)))"

text \<open>
  One pass of the loop of \<^verbatim>\<open>run\<close>, for what \<^verbatim>\<open>WaitForEvent\<close> returned: an error or
  an event.
\<close>

definition run_iter :: "state \<Rightarrow> string + xevent \<Rightarrow> panic + state" where
  "run_iter s r =
     (case r of
        Inl err \<Rightarrow> Inr (do_call (LogPrintf (''x11driver: xproto.WaitForEvent: '' @ err)) s)
      | Inr (ShmCompletionEvent sq) \<Rightarrow> handleCompletion s sq
      | Inr ev \<Rightarrow>
          (case event_window ev of
             None \<Rightarrow> Inr s
           | Some (xw, destroy) \<Rightarrow>
               let w = windows s xw;
                   s1 = (if destroy then s\<lparr>windows := (windows s)(xw := None)\<rparr> else s)
               in (case w of
                     None \<Rightarrow>
                       Inr (do_call (LogPrintf
                              (''x11driver: no window found for event '' @ type_name ev)) s1)
                   | Some wi \<Rightarrow>
                       if destroy then chan_close (w_xevents wi) s1
                       else chan_send (w_xevents wi) ev s1)))"

text \<open>
  The loop itself never returns; \<open>run\<close> is the loop over the first results of
  \<^verbatim>\<open>WaitForEvent\<close>. A panic ends the process.
\<close>

fun run :: "state \<Rightarrow> (string + xevent) list \<Rightarrow> panic + state" where
  "run s [] = Inr s"
| "run s (r # rs) = (case run_iter s r of Inl p \<Rightarrow> Inl p | Inr s' \<Rightarrow> run s' rs)"

text \<open>
  The goroutines that work on one screen: the dispatch loop takes a result of
  \<^verbatim>\<open>WaitForEvent\<close>, a caller creates a window or a buffer. The tables are only touched
  under \<^verbatim>\<open>s.mu\<close>, so a schedule is a list of such steps.
\<close>

datatype 'o step =
    Dispatch "string + xevent"
  | CallNewWindow NewWindow_env "'o option"
  | CallNewBuffer NewBuffer_env Point

fun exec_step :: "state \<Rightarrow> 'o step \<Rightarrow> panic + state" where
  "exec_step s (Dispatch r) = run_iter s r"
| "exec_step s (CallNewWindow env opts) =
     (case NewWindow env opts s of Inl p \<Rightarrow> Inl p | Inr (res, s') \<Rightarrow> Inr s')"
| "exec_step s (CallNewBuffer env sz) =
     (case NewBuffer env sz s of Inl p \<Rightarrow> Inl p | Inr (res, s') \<Rightarrow> Inr s')"

fun exec :: "state \<Rightarrow> 'o step list \<Rightarrow> panic + state" where
  "exec s [] = Inr s"
| "exec s (x # xs) = (case exec_step s x of Inl p \<Rightarrow> Inl p | Inr s' \<Rightarrow> exec s' xs)"

section \<open>Observations, the specification's wording, invariants, example inputs\<close>

subsection \<open>Observations on results and traces\<close>

text \<open>
  Whether a call returned a value rather than an error, the calls it had made, and the
  channels that a trace closes, in order.
\<close>

definition returned_value :: "panic + ((error + 'a) \<times> state) \<Rightarrow> bool" where
  "returned_value r =
     (case r of Inr (Inr v, s) \<Rightarrow> True | Inr (Inl e, s) \<Rightarrow> False | Inl p \<Rightarrow> False)"

definition calls_of :: "panic + ('a \<times> state) \<Rightarrow> call list" where
  "calls_of r = (case r of Inr (v, s) \<Rightarrow> trace s | Inl p \<Rightarrow> [])"

definition is_CreateWindow :: "call \<Rightarrow> bool" where
  "is_CreateWindow c = (case c of CreateWindow r \<Rightarrow> True | _ \<Rightarrow> False)"

definition is_CreatePicture :: "call \<Rightarrow> bool" where
  "is_CreatePicture c = (case c of CreatePicture p d f \<Rightarrow> True | _ \<Rightarrow> False)"

fun closed_chans :: "call list \<Rightarrow> nat list" where
  "closed_chans [] = []"
| "closed_chans (ChanClose c # cs) = c # closed_chans cs"
| "closed_chans (x # cs) = closed_chans cs"

subsection \<open>The specification's wording\<close>

text \<open>
  The packing as the specification words it: every atom as four bytes, the least
  significant first, one atom after the other. It is compared with \<open>pack_atoms\<close> below.
\<close>

definition spec_le_bytes :: "Atom \<Rightarrow> 8 word list" where
  "spec_le_bytes v =
     [ucast (drop_bit 0 v), ucast (drop_bit 8 v), ucast (drop_bit 16 v), ucast (drop_bit 24 v)]"

definition spec_pack :: "Atom list \<Rightarrow> 8 word list" where
  "spec_pack values = concat (map spec_le_bytes values)"

text \<open>
  The formats as the specification words them: direct colour with 8-bit red, green and
  blue at shifts 16, 8 and 0; at depth 24 no alpha field, at depth 32 an 8-bit alpha
  field at shift 24. They are compared with \<open>findPictformat\<close> below.
\<close>

definition spec_rgb8 :: "Pictforminfo \<Rightarrow> bool" where
  "spec_rgb8 f =
     (pf_Type f = PictTypeDirect \<and>
      RedShift (pf_Direct f) = 16 \<and> RedMask (pf_Direct f) = 0xff \<and>
      GreenShift (pf_Direct f) = 8 \<and> GreenMask (pf_Direct f) = 0xff \<and>
      BlueShift (pf_Direct f) = 0 \<and> BlueMask (pf_Direct f) = 0xff)"

definition spec_format24 :: "Pictforminfo \<Rightarrow> bool" where
  "spec_format24 f = (spec_rgb8 f \<and> pf_Depth f = 24 \<and> AlphaMask (pf_Direct f) = 0)"

definition spec_format32 :: "Pictforminfo \<Rightarrow> bool" where
  "spec_format32 f =
     (spec_rgb8 f \<and> pf_Depth f = 32 \<and>
      AlphaShift (pf_Direct f) = 24 \<and> AlphaMask (pf_Direct f) = 0xff)"

subsection \<open>The window table and its channels\<close>

text \<open>
  The discipline of the window table: every registered window holds an allocated, open
  channel, no two registered windows share a channel, and only allocated channels were
  ever closed.
\<close>

definition chan_inv :: "state \<Rightarrow> bool" where
  "chan_inv s =
     ((\<forall>xw w. windows s xw = Some w \<longrightarrow>
         w_xevents w < next_chan s \<and> \<not> chan_closed s (w_xevents w)) \<and>
      (\<forall>xw xw' w w'. windows s xw = Some w \<and> windows s xw' = Some w' \<and>
         w_xevents w = w_xevents w' \<longrightarrow> xw = xw') \<and>
      (\<forall>c\<in>set (closed_chans (trace s)). c < next_chan s))"

text \<open>
  A step that leaves the window \<open>xw\<close> alone: it is not the dispatch of the destroy
  notification of \<open>xw\<close>, and it is not a \<open>NewWindow\<close> to which the server hands the id
  \<open>xw\<close> again while that id is in use.
\<close>

fun leaves_window :: "Window \<Rightarrow> 'o step \<Rightarrow> bool" where
  "leaves_window xw (Dispatch r) = (r \<noteq> Inr (DestroyNotifyEvent xw))"
| "leaves_window xw (CallNewWindow env opts) = (newWindowId_res env \<noteq> Inr xw)"
| "leaves_window xw (CallNewBuffer env sz) = True"

text \<open>What a step can do to the window table and the channels.\<close>

definition same_channels :: "state \<Rightarrow> state \<Rightarrow> bool" where
  "same_channels s s' =
     (windows s' = windows s \<and> chan_closed s' = chan_closed s \<and>
      next_chan s' = next_chan s \<and> closed_chans (trace s') = closed_chans (trace s))"

definition window_destroyed :: "state \<Rightarrow> Window \<Rightarrow> windowImpl \<Rightarrow> state \<Rightarrow> bool" where
  "window_destroyed s xw w s' =
     (windows s xw = Some w \<and> \<not> chan_closed s (w_xevents w) \<and>
      windows s' = (windows s)(xw := None) \<and>
      chan_closed s' = (chan_closed s)(w_xevents w := True) \<and>
      next_chan s' = next_chan s \<and>
      closed_chans (trace s') = closed_chans (trace s) @ [w_xevents w])"

definition window_registered :: "state \<Rightarrow> windowImpl \<Rightarrow> state \<Rightarrow> bool" where
  "window_registered s w s' =
     (w_xevents w = next_chan s \<and>
      windows s' = (windows s)(w_xw w \<mapsto> w) \<and>
      chan_closed s' = (chan_closed s)(next_chan s := False) \<and>
      next_chan s' = Suc (next_chan s) \<and>
      closed_chans (trace s') = closed_chans (trace s))"

text \<open>A channel that is allocated and that no registered window holds.\<close>

definition retired :: "state \<Rightarrow> nat \<Rightarrow> bool" where
  "retired s c = (c < next_chan s \<and> (\<forall>y v. windows s y = Some v \<longrightarrow> w_xevents v \<noteq> c))"

subsection \<open>Example inputs\<close>

text \<open>Screens of root depth 24 and 16 with empty tables, and answers of the server.\<close>

definition demo_screen :: state where
  "demo_screen = new_screen \<lparr>Root = 1, RootVisual = 33, RootDepth = 24, AllowedDepths = []\<rparr>"

definition demo_screen16 :: state where
  "demo_screen16 = new_screen \<lparr>Root = 1, RootVisual = 33, RootDepth = 16, AllowedDepths = []\<rparr>"

definition demo_buffer_env :: NewBuffer_env where
  "demo_buffer_env =
     \<lparr>newSegId_res = Inr 7, shmOpen_res = Inr (5, 4096), attach_reply = None\<rparr>"

definition attach_fails_env :: NewBuffer_env where
  "attach_fails_env =
     \<lparr>newSegId_res = Inr 7, shmOpen_res = Inr (5, 4096), attach_reply = Some ''BadAccess''\<rparr>"

definition demo_window_env :: NewWindow_env where
  "demo_window_env =
     \<lparr>newWindowId_res = Inr 9, newGcontextId_res = Inr 10, newPictureId_res = Inr 11,
      pump_Make_res = 0\<rparr>"

definition no_gc_env :: NewWindow_env where
  "no_gc_env =
     \<lparr>newWindowId_res = Inr 9, newGcontextId_res = Inl ''out of ids'',
      newPictureId_res = Inr 11, pump_Make_res = 0\<rparr>"

text \<open>Servers: one with matching formats for both depths, one with a 16-bit format only.\<close>

definition demo_formats :: "Pictforminfo list" where
  "demo_formats =
     [\<lparr>pf_Id = 100, pf_Type = 0, pf_Depth = 24,
       pf_Direct = \<lparr>RedShift = 0, RedMask = 0, GreenShift = 0, GreenMask = 0,
                    BlueShift = 0, BlueMask = 0, AlphaShift = 0, AlphaMask = 0\<rparr>,
       pf_Colormap = 0\<rparr>,
      \<lparr>pf_Id = 101, pf_Type = 1, pf_Depth = 24,
       pf_Direct = \<lparr>RedShift = 16, RedMask = 0xff, GreenShift = 8, GreenMask = 0xff,
                    BlueShift = 0, BlueMask = 0xff, AlphaShift = 0, AlphaMask = 0\<rparr>,
       pf_Colormap = 0\<rparr>,
      \<lparr>pf_Id = 102, pf_Type = 1, pf_Depth = 32,
       pf_Direct = \<lparr>RedShift = 16, RedMask = 0xff, GreenShift = 8, GreenMask = 0xff,
                    BlueShift = 0, BlueMask = 0xff, AlphaShift = 24, AlphaMask = 0xff\<rparr>,
       pf_Colormap = 0\<rparr>]"

definition demo_formats16 :: "Pictforminfo list" where
  "demo_formats16 =
     [\<lparr>pf_Id = 90, pf_Type = 1, pf_Depth = 16,
       pf_Direct = \<lparr>RedShift = 11, RedMask = 0x1f, GreenShift = 5, GreenMask = 0x3f,
                    BlueShift = 0, BlueMask = 0x1f, AlphaShift = 0, AlphaMask = 0\<rparr>,
       pf_Colormap = 0\<rparr>]"

definition demo_init_env16 :: newScreenImpl_env where
  "demo_init_env16 =
     \<lparr>defaultScreen = \<lparr>Root = 1, RootVisual = 33, RootDepth = 16, AllowedDepths = []\<rparr>,
      internAtom_res = (\<lambda>name. Inr (Some 300)),
      queryPictFormats_res = Inr demo_formats16,
      newColormapId_res = Inr 50,
      createColormap_check = None,
      init_newWindowId_res = Inr 51,
      init_newGcontextId_res = Inr 52\<rparr>"

text \<open>
  A server whose only depth-24 format has alpha mask 0 at alpha shift 24, next to a
  depth-32 format with an alpha field.
\<close>

definition shifted_alpha_format :: Pictforminfo where
  "shifted_alpha_format =
     \<lparr>pf_Id = 103, pf_Type = 1, pf_Depth = 24,
      pf_Direct = \<lparr>RedShift = 16, RedMask = 0xff, GreenShift = 8, GreenMask = 0xff,
                   BlueShift = 0, BlueMask = 0xff, AlphaShift = 24, AlphaMask = 0\<rparr>,
      pf_Colormap = 0\<rparr>"

definition alpha32_format :: Pictforminfo where
  "alpha32_format =
     \<lparr>pf_Id = 102, pf_Type = 1, pf_Depth = 32,
      pf_Direct = \<lparr>RedShift = 16, RedMask = 0xff, GreenShift = 8, GreenMask = 0xff,
                   BlueShift = 0, BlueMask = 0xff, AlphaShift = 24, AlphaMask = 0xff\<rparr>,
      pf_Colormap = 0\<rparr>"

definition shifted_alpha_env :: newScreenImpl_env where
  "shifted_alpha_env =
     \<lparr>defaultScreen = \<lparr>Root = 1, RootVisual = 33, RootDepth = 24, AllowedDepths = []\<rparr>,
      internAtom_res = (\<lambda>name. Inr (Some 300)),
      queryPictFormats_res = Inr [shifted_alpha_format, alpha32_format],
      newColormapId_res = Inr 50,
      createColormap_check = None,
      init_newWindowId_res = Inr 51,
      init_newGcontextId_res = Inr 52\<rparr>"

text \<open>Screens of root depth 24 and 32 after a negotiation that chose formats 101 and 102.\<close>

definition demo_screen24f :: state where
  "demo_screen24f =
     (new_screen \<lparr>Root = 1, RootVisual = 33, RootDepth = 24, AllowedDepths = []\<rparr>)
       \<lparr>pictformat24 := 101, pictformat32 := 102\<rparr>"

definition demo_screen32f :: state where
  "demo_screen32f =
     (new_screen \<lparr>Root = 1, RootVisual = 33, RootDepth = 32, AllowedDepths = []\<rparr>)
       \<lparr>pictformat24 := 101, pictformat32 := 102\<rparr>"

text \<open>A screen with a pending upload of a buffer, one with a window, and a schedule.\<close>

definition demo_pending :: completion where
  "demo_pending = \<lparr>sender = Some 1, event = \<lparr>ev_Buffer = BufferImplPtr 0, ev_Uploaded = 0\<rparr>\<rparr>"

definition demo_upload_screen :: state where
  "demo_upload_screen =
     (case NewBuffer demo_buffer_env \<lparr>X = 10, Y = 10\<rparr> demo_screen of
        Inr (r, s) \<Rightarrow> s\<lparr>uploads := [5 \<mapsto> demo_pending]\<rparr>
      | Inl p \<Rightarrow> demo_screen)"

definition demo_window :: windowImpl where
  "demo_window = \<lparr>w_xw = 9, w_xg = 10, w_xp = 11, w_pump = 0, w_xevents = 0\<rparr>"

definition demo_window_screen :: state where
  "demo_window_screen =
     (case NewWindow demo_window_env (None :: unit option) demo_screen of
        Inr (r, s) \<Rightarrow> s
      | Inl p \<Rightarrow> demo_screen)"

definition demo_steps :: "unit step list" where
  "demo_steps = [Dispatch (Inr (ExposeEvent 9)), Dispatch (Inr (DestroyNotifyEvent 77))]"

section \<open>NewBuffer: the size check, the buffer, the cleanup\<close>

lemma sint_side_product:
  fixes w h :: goint
  assumes "0 \<le> sint w" "sint w \<le> 32767" "0 \<le> sint h" "sint h \<le> 32767"
  shows "sint (4 * w * h) = 4 * sint w * sint h"
proof -
  have "sint (4 * w) = signed_take_bit 63 (4 * sint w)"
    by (simp add: sint_word_ariths)
  also have "\<dots> = 4 * sint w"
    using assms by (intro signed_take_bit_int_eq_self) auto
  finally have w4: "sint (4 * w) = 4 * sint w" .
  have b: "4 * sint w * sint h \<le> 4 * 32767 * 32767"
    using assms by (intro mult_mono) auto
  have nn: "0 \<le> 4 * sint w * sint h" using assms by simp
  have "sint (4 * w * h) = signed_take_bit 63 (sint (4 * w) * sint h)"
    by (simp add: sint_word_ariths)
  also have "\<dots> = 4 * sint w * sint h"
    unfolding w4 using b nn by (intro signed_take_bit_int_eq_self) auto
  finally show ?thesis .
qed

lemma invalid_size_iff:
  "invalid_size sz \<longleftrightarrow>
     sint (X sz) < 0 \<or> 32767 < sint (X sz) \<or> sint (Y sz) < 0 \<or> 32767 < sint (Y sz) \<or>
     268435456 < 4 * sint (X sz) * sint (Y sz)"
proof (cases "0 \<le> sint (X sz) \<and> sint (X sz) \<le> 32767 \<and> 0 \<le> sint (Y sz) \<and> sint (Y sz) \<le> 32767")
  case True
  then have "sint (4 * X sz * Y sz) = 4 * sint (X sz) * sint (Y sz)"
    by (intro sint_side_product) auto
  with True show ?thesis
    by (simp add: invalid_size_def Let_def word_sless_alt maxShmSide_def maxShmSize_def)
next
  case False
  then show ?thesis
    by (auto simp add: invalid_size_def Let_def word_sless_alt maxShmSide_def maxShmSize_def)
qed


lemma valid_size_bufLen:
  assumes "\<not> invalid_size sz"
  shows "sint (4 * X sz * Y sz) = 4 * sint (X sz) * sint (Y sz)"
    and "0 \<le> 4 * sint (X sz) * sint (Y sz)"
    and "4 * sint (X sz) * sint (Y sz) \<le> 268435456"
proof -
  from assms have r: "0 \<le> sint (X sz)" "sint (X sz) \<le> 32767" "0 \<le> sint (Y sz)"
    "sint (Y sz) \<le> 32767" "4 * sint (X sz) * sint (Y sz) \<le> 268435456"
    by (simp_all add: invalid_size_iff not_less)
  from r show "sint (4 * X sz * Y sz) = 4 * sint (X sz) * sint (Y sz)"
    by (intro sint_side_product)
  from r show "0 \<le> 4 * sint (X sz) * sint (Y sz)" by simp
  from r show "4 * sint (X sz) * sint (Y sz) \<le> 268435456" by simp
qed

lemma slice_array_valid:
  assumes "\<not> invalid_size sz"
  shows "slice_array a (4 * X sz * Y sz) =
     Inr \<lparr>sl_ptr = a, sl_len = 4 * X sz * Y sz, sl_cap = 4 * X sz * Y sz\<rparr>"
  using valid_size_bufLen [OF assms]
  by (simp add: slice_array_def word_sless_alt maxShmSize_def)

lemma sint_stride:
  assumes "\<not> invalid_size sz"
  shows "sint (4 * X sz) = 4 * sint (X sz)"
proof -
  from assms have r: "0 \<le> sint (X sz)" "sint (X sz) \<le> 32767"
    by (simp_all add: invalid_size_iff not_less)
  have "sint (4 * X sz) = signed_take_bit 63 (4 * sint (X sz))"
    by (simp add: sint_word_ariths)
  also have "\<dots> = 4 * sint (X sz)"
    using r by (intro signed_take_bit_int_eq_self) auto
  finally show ?thesis .
qed

lemma NewBuffer_valid:
  assumes "\<not> invalid_size sz" "newSegId_res env = Inr xs" "shmOpen_res env = Inr (shmid, addr)"
  shows "NewBuffer env sz s =
     Inr (Inr (next_buf s),
       s\<lparr>trace := trace s @ [NewSegId, ShmOpen (4 * X sz * Y sz), ShmAttach xs (ucast shmid) False],
         bufheap := (bufheap s)(next_buf s \<mapsto>
           \<lparr>b_addr = addr,
            b_buf = \<lparr>sl_ptr = addr, sl_len = 4 * X sz * Y sz, sl_cap = 4 * X sz * Y sz\<rparr>,
            b_rgba = \<lparr>Pix = \<lparr>sl_ptr = addr, sl_len = 4 * X sz * Y sz, sl_cap = 4 * X sz * Y sz\<rparr>,
                      Stride = 4 * X sz, Rect = \<lparr>Min = \<lparr>X = 0, Y = 0\<rparr>, Max = sz\<rparr>\<rparr>,
            b_size = sz, b_xs = xs, b_uploading = False\<rparr>),
         next_buf := Suc (next_buf s),
         buffers := (buffers s)(xs \<mapsto> next_buf s)\<rparr>)"
  using assms slice_array_valid [OF assms(1), of addr]
  by (simp add: NewBuffer_def NewBuffer_body_def NewBuffer_deferred_def do_call_def Let_def)

text \<open>
  C3: a size whose width or height is negative or above 32767, or whose 4 * width * height
  is above 268435456, makes \<open>NewBuffer\<close> return the size error with the state as it was:
  no call was made, so no segment id was allocated and no shared memory opened.
\<close>

theorem NewBuffer_rejects_invalid_size:
  assumes "sint (X sz) < 0 \<or> 32767 < sint (X sz) \<or> sint (Y sz) < 0 \<or> 32767 < sint (Y sz) \<or>
     268435456 < 4 * sint (X sz) * sint (Y sz)"
  shows "NewBuffer env sz s = Inr (Inl (InvalidBufferSize sz), s)"
  using assms by (simp add: NewBuffer_def invalid_size_iff)

theorem NewBuffer_rejects_invalid_size_witness:
  "32767 < sint (X \<lparr>X = 40000, Y = 1\<rparr>) \<and>
   NewBuffer demo_buffer_env \<lparr>X = 40000, Y = 1\<rparr> demo_screen =
     Inr (Inl (InvalidBufferSize \<lparr>X = 40000, Y = 1\<rparr>), demo_screen) \<and>
   calls_of (NewBuffer demo_buffer_env \<lparr>X = 40000, Y = 1\<rparr> demo_screen) = []"
proof -
  have h: "32767 < sint (X \<lparr>X = 40000, Y = 1\<rparr>)" by simp
  from h have "NewBuffer demo_buffer_env \<lparr>X = 40000, Y = 1\<rparr> demo_screen =
     Inr (Inl (InvalidBufferSize \<lparr>X = 40000, Y = 1\<rparr>), demo_screen)"
    by (intro NewBuffer_rejects_invalid_size) blast
  with h show ?thesis by (simp add: calls_of_def demo_screen_def new_screen_def)
qed

text \<open>
  C4: for a size within the bounds, when the segment id and the shared memory are
  granted, \<open>NewBuffer\<close> returns a buffer that is registered under its segment id, whose
  pixel view is 4 * width * height bytes long with stride 4 * width.
\<close>

theorem NewBuffer_creates_buffer:
  assumes "0 \<le> sint (X sz)" "sint (X sz) \<le> 32767" "0 \<le> sint (Y sz)" "sint (Y sz) \<le> 32767"
    and "4 * sint (X sz) * sint (Y sz) \<le> 268435456"
    and "newSegId_res env = Inr xs" and "shmOpen_res env = Inr (shmid, addr)"
  shows "\<exists>p s' b. NewBuffer env sz s = Inr (Inr p, s') \<and>
           bufheap s' p = Some b \<and> buffers s' xs = Some p \<and> b_xs b = xs \<and>
           sl_ptr (Pix (b_rgba b)) = addr \<and>
           sint (sl_len (Pix (b_rgba b))) = 4 * sint (X sz) * sint (Y sz) \<and>
           sint (Stride (b_rgba b)) = 4 * sint (X sz)"
proof -
  from assms have v: "\<not> invalid_size sz"
    by (simp add: invalid_size_iff not_less)
  show ?thesis
    using valid_size_bufLen(1) [OF v] sint_stride [OF v]
    by (simp add: NewBuffer_valid [OF v assms(6) assms(7)])
qed

theorem NewBuffer_creates_buffer_witness:
  "\<exists>p s' b. NewBuffer demo_buffer_env \<lparr>X = 10, Y = 10\<rparr> demo_screen = Inr (Inr p, s') \<and>
           bufheap s' p = Some b \<and> buffers s' 7 = Some p \<and> b_xs b = 7 \<and>
           sl_ptr (Pix (b_rgba b)) = 4096 \<and>
           sint (sl_len (Pix (b_rgba b))) = 400 \<and>
           sint (Stride (b_rgba b)) = 40"
  using NewBuffer_creates_buffer [of "\<lparr>X = 10, Y = 10\<rparr>" demo_buffer_env 7 5 4096 demo_screen]
  by (simp add: demo_buffer_env_def)

text \<open>
  C6, as the claim states it, fails: with a server that refuses the attach request,
  \<open>NewBuffer\<close> for a 10 by 10 buffer still returns the buffer, and the calls it made
  end with the attach; the region is not closed.
\<close>

theorem NewBuffer_attach_failure_unobserved:
  "attach_reply attach_fails_env = Some ''BadAccess'' \<and>
   returned_value (NewBuffer attach_fails_env \<lparr>X = 10, Y = 10\<rparr> demo_screen) \<and>
   calls_of (NewBuffer attach_fails_env \<lparr>X = 10, Y = 10\<rparr> demo_screen) =
     [NewSegId, ShmOpen 400, ShmAttach 7 5 False]"
proof -
  have v: "\<not> invalid_size \<lparr>X = 10, Y = 10\<rparr>"
    by (simp add: invalid_size_iff)
  have e: "newSegId_res attach_fails_env = Inr 7" "shmOpen_res attach_fails_env = Inr (5, 4096)"
    by (simp_all add: attach_fails_env_def)
  show ?thesis
    by (simp add: NewBuffer_valid [OF v e] returned_value_def calls_of_def)
      (simp add: attach_fails_env_def demo_screen_def new_screen_def)
qed

text \<open>
  C6, amended: the attach request is sent unchecked, so once the region is open no later
  step returns an error: \<open>NewBuffer\<close> returns the buffer, after exactly the calls for the
  id, the region and the attach, whatever the server replies to the attach. The deferred
  function closes the region before any error that the rest of the call would return.
\<close>

theorem NewBuffer_no_error_after_open:
  assumes "\<not> invalid_size sz" "newSegId_res env = Inr xs" "shmOpen_res env = Inr (shmid, addr)"
  shows "(\<exists>p s'. NewBuffer env sz s = Inr (Inr p, s') \<and>
            trace s' = trace s @
              [NewSegId, ShmOpen (4 * X sz * Y sz), ShmAttach xs (ucast shmid) False]) \<and>
         (\<forall>e t. NewBuffer_deferred addr (Inr (Inl e, t)) = Inr (Inl e, do_call (ShmClose addr) t))"
  by (simp add: NewBuffer_valid [OF assms] NewBuffer_deferred_def)

theorem NewBuffer_no_error_after_open_witness:
  "(\<exists>p s'. NewBuffer attach_fails_env \<lparr>X = 10, Y = 10\<rparr> demo_screen = Inr (Inr p, s') \<and>
      trace s' = [NewSegId, ShmOpen 400, ShmAttach 7 5 False]) \<and>
   NewBuffer_deferred 4096 (Inr (Inl (ShmOpenFailed ''late''), demo_screen)) =
     Inr (Inl (ShmOpenFailed ''late''), do_call (ShmClose 4096) demo_screen)"
proof -
  have v: "\<not> invalid_size \<lparr>X = 10, Y = 10\<rparr>"
    by (simp add: invalid_size_iff)
  have e: "newSegId_res attach_fails_env = Inr 7" "shmOpen_res attach_fails_env = Inr (5, 4096)"
    by (simp_all add: attach_fails_env_def)
  from NewBuffer_no_error_after_open [OF v e, of demo_screen]
  show ?thesis by (simp add: demo_screen_def new_screen_def)
qed

section \<open>setProperty: the bytes of the request\<close>

lemma replicate4: "replicate (Suc n * 4) x = x # x # x # x # replicate (n * 4) x"
  by (simp add: numeral_eq_Suc)

lemma pack_atom_at_end:
  assumes "length pre = 4 * i"
  shows "pack_atom (pre @ a # b # c # d # rest) i v = Inr (pre @ spec_le_bytes v @ rest)"
  using assms
  by (simp add: pack_atom_def store_byte_def spec_le_bytes_def list_update_append)

lemma spec_pack_Cons: "spec_pack (v # vs) = spec_le_bytes v @ spec_pack vs"
  by (simp add: spec_pack_def)

lemma length_spec_le_bytes: "length (spec_le_bytes v) = 4"
  by (simp add: spec_le_bytes_def)

lemma pack_atoms_from:
  assumes "length pre = 4 * i"
  shows "pack_atoms i vs (pre @ replicate (length vs * 4) 0) = Inr (pre @ spec_pack vs)"
  using assms
proof (induction vs arbitrary: i pre)
  case Nil
  then show ?case by (simp add: spec_pack_def)
next
  case (Cons v vs)
  have r: "replicate (length (v # vs) * 4) (0 :: 8 word) =
      0 # 0 # 0 # 0 # replicate (length vs * 4) 0"
    using replicate4 [of "length vs" "0 :: 8 word"] by simp
  have step: "pack_atom (pre @ replicate (length (v # vs) * 4) 0) i v =
      Inr ((pre @ spec_le_bytes v) @ replicate (length vs * 4) 0)"
    unfolding r using pack_atom_at_end [OF Cons.prems] by simp
  have len: "length (pre @ spec_le_bytes v) = 4 * Suc i"
    using Cons.prems by (simp add: length_spec_le_bytes)
  have "pack_atoms i (v # vs) (pre @ replicate (length (v # vs) * 4) 0) =
      pack_atoms (Suc i) vs ((pre @ spec_le_bytes v) @ replicate (length vs * 4) 0)"
    by (simp only: pack_atoms.simps step sum.case)
  also have "\<dots> = Inr ((pre @ spec_le_bytes v) @ spec_pack vs)"
    by (rule Cons.IH [OF len])
  finally show ?case by (simp add: spec_pack_Cons)
qed

lemma pack_atoms_all: "pack_atoms 0 vs (replicate (length vs * 4) 0) = Inr (spec_pack vs)"
  using pack_atoms_from [of "[]" 0 vs] by simp

lemma setProperty_eq:
  "setProperty s xw prop values =
     Inr (do_call (ChangeProperty
            \<lparr>cp_Mode = PropModeReplace, cp_Window = xw, cp_Property = prop,
             cp_Type = AtomAtom, cp_Format = 32,
             cp_DataLen = word_of_nat (length values), cp_Data = spec_pack values\<rparr>) s)"
  by (simp add: setProperty_def pack_atoms_all)

lemma length_spec_pack: "length (spec_pack vs) = 4 * length vs"
  by (induction vs) (simp_all add: spec_pack_Cons length_spec_le_bytes, simp add: spec_pack_def)

lemma spec_pack_nth:
  assumes "i < length vs" "k < 4"
  shows "spec_pack vs ! (4 * i + k) = spec_le_bytes (vs ! i) ! k"
  using assms
proof (induction vs arbitrary: i)
  case Nil
  then show ?case by simp
next
  case (Cons v vs)
  show ?case
  proof (cases i)
    case 0
    with Cons.prems show ?thesis
      by (simp add: spec_pack_Cons nth_append length_spec_le_bytes)
  next
    case (Suc j)
    with Cons.prems have "j < length vs" by simp
    from Cons.IH [OF this Cons.prems(2)] Suc show ?thesis
      by (simp add: spec_pack_Cons nth_append length_spec_le_bytes)
  qed
qed

lemma spec_le_bytes_digit:
  "unat (ucast (drop_bit n v) :: 8 word) = (unat v div 2 ^ n) mod 256" for v :: Atom
proof -
  have "unat (ucast (drop_bit n v) :: 8 word) = take_bit 8 (drop_bit n (unat v))"
    by (simp only: unsigned_ucast_eq unat_drop_bit_eq) simp
  then show ?thesis
    by (simp add: drop_bit_eq_div take_bit_eq_mod)
qed

lemma four_digits:
  fixes n :: nat
  assumes "n < 4294967296"
  shows "n = n mod 256 + 256 * ((n div 256) mod 256) +
     65536 * ((n div 65536) mod 256) + 16777216 * ((n div 16777216) mod 256)"
proof -
  define q1 where "q1 = n div 256"
  define q2 where "q2 = q1 div 256"
  define q3 where "q3 = q2 div 256"
  have e2: "n div 65536 = q2"
    unfolding q2_def q1_def by (simp add: div_mult2_eq)
  have e3: "n div 16777216 = q3"
    unfolding q3_def q2_def q1_def by (simp add: div_mult2_eq)
  have "q3 < 256"
    using assms unfolding e3 [symmetric] by (simp add: less_mult_imp_div_less)
  then have m3: "q3 mod 256 = q3" by simp
  have s0: "n = n mod 256 + 256 * q1" unfolding q1_def by simp
  have s1: "q1 = q1 mod 256 + 256 * q2" unfolding q2_def by simp
  have s2: "q2 = q2 mod 256 + 256 * q3" unfolding q3_def by simp
  have "n mod 256 + 256 * (q1 mod 256) + 65536 * (q2 mod 256) + 16777216 * q3 =
      n mod 256 + 256 * (q1 mod 256 + 256 * (q2 mod 256 + 256 * q3))"
    by simp
  also have "\<dots> = n" using s0 s1 s2 by simp
  finally show ?thesis
    unfolding e2 e3 m3 q1_def [symmetric] by simp
qed

lemma spec_le_bytes_value:
  "unat v = unat (spec_le_bytes v ! 0) + 256 * unat (spec_le_bytes v ! 1) +
     65536 * unat (spec_le_bytes v ! 2) + 16777216 * unat (spec_le_bytes v ! 3)"
proof -
  have b: "unat v < 4294967296" using unsigned_less [of v, where 'a = nat] by simp
  have "unat (spec_le_bytes v ! 0) = unat v mod 256"
    using spec_le_bytes_digit [of 0 v] by (simp add: spec_le_bytes_def)
  moreover have "unat (spec_le_bytes v ! 1) = (unat v div 256) mod 256"
    using spec_le_bytes_digit [of 8 v] by (simp add: spec_le_bytes_def)
  moreover have "unat (spec_le_bytes v ! 2) = (unat v div 65536) mod 256"
    using spec_le_bytes_digit [of 16 v] by (simp add: spec_le_bytes_def)
  moreover have "unat (spec_le_bytes v ! 3) = (unat v div 16777216) mod 256"
    using spec_le_bytes_digit [of 24 v] by (simp add: spec_le_bytes_def)
  ultimately show ?thesis using four_digits [OF b] by simp
qed


text \<open>
  C9: \<open>setProperty\<close> issues one \<open>ChangeProperty\<close> request of format 32 whose data
  holds atom \<open>i\<close> in bytes \<open>4i\<close> to \<open>4i + 3\<close>, least significant byte first, and
  whose count is the number of atoms. The count is a 32-bit field of the request: it is
  the number of atoms for every list that a request can carry, one shorter than
  \<open>2 ^ 32\<close>.
\<close>

theorem setProperty_packs_little_endian:
  "\<exists>req. setProperty s xw prop values = Inr (do_call (ChangeProperty req) s) \<and>
     cp_Mode req = PropModeReplace \<and> cp_Window req = xw \<and> cp_Property req = prop \<and>
     cp_Type req = AtomAtom \<and> cp_Format req = 32 \<and>
     cp_DataLen req = word_of_nat (length values) \<and>
     (length values < 2 ^ 32 \<longrightarrow> unat (cp_DataLen req) = length values) \<and>
     length (cp_Data req) = 4 * length values \<and>
     (\<forall>i<length values.
        cp_Data req ! (4 * i) = ucast (values ! i) \<and>
        cp_Data req ! (4 * i + 1) = ucast (drop_bit 8 (values ! i)) \<and>
        cp_Data req ! (4 * i + 2) = ucast (drop_bit 16 (values ! i)) \<and>
        cp_Data req ! (4 * i + 3) = ucast (drop_bit 24 (values ! i)) \<and>
        unat (values ! i) =
          unat (cp_Data req ! (4 * i)) + 256 * unat (cp_Data req ! (4 * i + 1)) +
          65536 * unat (cp_Data req ! (4 * i + 2)) +
          16777216 * unat (cp_Data req ! (4 * i + 3)))"
proof -
  have n: "length values < 2 ^ 32 \<longrightarrow>
      unat (word_of_nat (length values) :: 32 word) = length values"
    by (simp add: unsigned_of_nat take_bit_nat_eq_self)
  have bytes: "spec_pack values ! (4 * i) = ucast (values ! i) \<and>
        spec_pack values ! (4 * i + 1) = ucast (drop_bit 8 (values ! i)) \<and>
        spec_pack values ! (4 * i + 2) = ucast (drop_bit 16 (values ! i)) \<and>
        spec_pack values ! (4 * i + 3) = ucast (drop_bit 24 (values ! i)) \<and>
        unat (values ! i) =
          unat (spec_pack values ! (4 * i)) + 256 * unat (spec_pack values ! (4 * i + 1)) +
          65536 * unat (spec_pack values ! (4 * i + 2)) +
          16777216 * unat (spec_pack values ! (4 * i + 3))"
    if "i < length values" for i
  proof -
    have k: "spec_pack values ! (4 * i) = spec_le_bytes (values ! i) ! 0"
      "spec_pack values ! (4 * i + 1) = spec_le_bytes (values ! i) ! 1"
      "spec_pack values ! (4 * i + 2) = spec_le_bytes (values ! i) ! 2"
      "spec_pack values ! (4 * i + 3) = spec_le_bytes (values ! i) ! 3"
      using spec_pack_nth [OF that, of 0] spec_pack_nth [OF that, of 1]
        spec_pack_nth [OF that, of 2] spec_pack_nth [OF that, of 3]
      by simp_all
    show ?thesis
      unfolding k using spec_le_bytes_value [of "values ! i"] by (simp add: spec_le_bytes_def)
  qed
  let ?req = "\<lparr>cp_Mode = PropModeReplace, cp_Window = xw, cp_Property = prop,
             cp_Type = AtomAtom, cp_Format = 32,
             cp_DataLen = word_of_nat (length values), cp_Data = spec_pack values\<rparr>"
  have "setProperty s xw prop values = Inr (do_call (ChangeProperty ?req) s)"
    by (rule setProperty_eq)
  moreover have "cp_Mode ?req = PropModeReplace \<and> cp_Window ?req = xw \<and>
     cp_Property ?req = prop \<and> cp_Type ?req = AtomAtom \<and> cp_Format ?req = 32 \<and>
     cp_DataLen ?req = word_of_nat (length values) \<and>
     (length values < 2 ^ 32 \<longrightarrow> unat (cp_DataLen ?req) = length values) \<and>
     length (cp_Data ?req) = 4 * length values"
    using n by (simp add: length_spec_pack)
  moreover have "\<forall>i<length values.
        cp_Data ?req ! (4 * i) = ucast (values ! i) \<and>
        cp_Data ?req ! (4 * i + 1) = ucast (drop_bit 8 (values ! i)) \<and>
        cp_Data ?req ! (4 * i + 2) = ucast (drop_bit 16 (values ! i)) \<and>
        cp_Data ?req ! (4 * i + 3) = ucast (drop_bit 24 (values ! i)) \<and>
        unat (values ! i) =
          unat (cp_Data ?req ! (4 * i)) + 256 * unat (cp_Data ?req ! (4 * i + 1)) +
          65536 * unat (cp_Data ?req ! (4 * i + 2)) +
          16777216 * unat (cp_Data ?req ! (4 * i + 3))"
    using bytes by simp
  ultimately show ?thesis by blast
qed

theorem setProperty_packs_little_endian_witness:
  "\<exists>req. setProperty demo_screen 9 3 [0x01020304, 0x0A0B0C0D] =
       Inr (do_call (ChangeProperty req) demo_screen) \<and>
     unat (cp_DataLen req) = 2 \<and> length (cp_Data req) = 8 \<and>
     cp_Data req ! 0 = 0x04 \<and> cp_Data req ! 1 = 0x03 \<and> cp_Data req ! 2 = 0x02 \<and>
     cp_Data req ! 3 = 0x01 \<and> cp_Data req ! 4 = 0x0D \<and> cp_Data req ! 5 = 0x0C \<and>
     cp_Data req ! 6 = 0x0B \<and> cp_Data req ! 7 = 0x0A"
proof -
  have h: "length [0x01020304, 0x0A0B0C0D :: Atom] < 2 ^ 32" by simp
  from h setProperty_packs_little_endian [of demo_screen 9 3 "[0x01020304, 0x0A0B0C0D]"]
  obtain req where r: "setProperty demo_screen 9 3 [0x01020304, 0x0A0B0C0D] =
       Inr (do_call (ChangeProperty req) demo_screen)"
    "unat (cp_DataLen req) = length [0x01020304, 0x0A0B0C0D :: Atom]"
    "length (cp_Data req) = 4 * length [0x01020304, 0x0A0B0C0D :: Atom]"
    and b: "\<forall>i<length [0x01020304, 0x0A0B0C0D :: Atom].
        cp_Data req ! (4 * i) = ucast ([0x01020304, 0x0A0B0C0D :: Atom] ! i) \<and>
        cp_Data req ! (4 * i + 1) = ucast (drop_bit 8 ([0x01020304, 0x0A0B0C0D :: Atom] ! i)) \<and>
        cp_Data req ! (4 * i + 2) = ucast (drop_bit 16 ([0x01020304, 0x0A0B0C0D :: Atom] ! i)) \<and>
        cp_Data req ! (4 * i + 3) = ucast (drop_bit 24 ([0x01020304, 0x0A0B0C0D :: Atom] ! i))"
    by blast
  from b [rule_format, of 0] b [rule_format, of 1] r show ?thesis
    by (intro exI [of _ req]) (simp add: drop_bit_eq_div del: add_2_eq_Suc add_2_eq_Suc')
qed

section \<open>NewWindow: outcomes\<close>

text \<open>The window value and the state that a successful \<open>NewWindow\<close> leaves.\<close>

lemma NewWindow_create_eq:
  "NewWindow_create env xw xg xp pf s =
     Inr (Inr \<lparr>w_xw = xw, w_xg = xg, w_xp = xp, w_pump = pump_Make_res env,
               w_xevents = next_chan s\<rparr>,
          s\<lparr>trace := trace s @
              [PumpMake, GoWindowRun (next_chan s),
               CreateWindow
                 \<lparr>cw_Depth = RootDepth (xsi s), cw_Wid = xw, cw_Parent = Root (xsi s),
                  cw_X = 0, cw_Y = 0, cw_Width = 1024, cw_Height = 768,
                  cw_BorderWidth = 0, cw_Class = WindowClassInputOutput,
                  cw_Visual = RootVisual (xsi s), cw_ValueMask = CwEventMask,
                  cw_ValueList = [window_event_mask]\<rparr>,
               ChangeProperty
                 \<lparr>cp_Mode = PropModeReplace, cp_Window = xw,
                  cp_Property = atomWMProtocols s, cp_Type = AtomAtom, cp_Format = 32,
                  cp_DataLen = 2,
                  cp_Data = spec_pack [atomWMDeleteWindow s, atomWMTakeFocus s]\<rparr>,
               CreateGC xg xw, CreatePicture xp xw pf, MapWindow xw],
            chan_closed := (chan_closed s)(next_chan s := False),
            chan_queue := (chan_queue s)(next_chan s := []),
            next_chan := Suc (next_chan s),
            windows := (windows s)(xw \<mapsto>
              \<lparr>w_xw = xw, w_xg = xg, w_xp = xp, w_pump = pump_Make_res env,
               w_xevents = next_chan s\<rparr>)\<rparr>)"
  by (simp add: NewWindow_create_def make_chan_def do_call_def setProperty_eq Let_def)


lemma NewWindow_ids_ok:
  assumes "newWindowId_res env = Inr xw" "newGcontextId_res env = Inr xg"
    "newPictureId_res env = Inr xp"
  shows "NewWindow env opts s =
     (if RootDepth (xsi s) = 24 then
        NewWindow_create env xw xg xp (pictformat24 s)
          (s\<lparr>trace := trace s @ [NewWindowId, NewGcontextId, NewPictureId]\<rparr>)
      else if RootDepth (xsi s) = 32 then
        NewWindow_create env xw xg xp (pictformat32 s)
          (s\<lparr>trace := trace s @ [NewWindowId, NewGcontextId, NewPictureId]\<rparr>)
      else Inr (Inl (UnsupportedRootDepth (RootDepth (xsi s))),
                s\<lparr>trace := trace s @ [NewWindowId, NewGcontextId, NewPictureId]\<rparr>))"
  using assms by (simp add: NewWindow_def do_call_def Let_def)

lemma NewWindow_error_keeps_windows:
  assumes "NewWindow env opts s = Inr (Inl e, s')"
  shows "windows s' = windows s"
proof (cases "newWindowId_res env")
  case (Inl err)
  with assms show ?thesis by (auto simp: NewWindow_def do_call_def Let_def)
next
  case xw: (Inr xw)
  show ?thesis
  proof (cases "newGcontextId_res env")
    case (Inl err)
    with assms xw show ?thesis by (auto simp: NewWindow_def do_call_def Let_def)
  next
    case xg: (Inr xg)
    show ?thesis
    proof (cases "newPictureId_res env")
      case (Inl err)
      with assms xw xg show ?thesis by (auto simp: NewWindow_def do_call_def Let_def)
    next
      case xp: (Inr xp)
      from assms show ?thesis
        unfolding NewWindow_ids_ok [OF xw xg xp] NewWindow_create_eq
        by (auto split: if_splits)
    qed
  qed
qed

lemma NewWindow_success:
  assumes "NewWindow env opts s = Inr (Inr w, s')"
  shows "\<exists>xw xg xp. newWindowId_res env = Inr xw \<and> newGcontextId_res env = Inr xg \<and>
     newPictureId_res env = Inr xp \<and>
     (RootDepth (xsi s) = 24 \<or> RootDepth (xsi s) = 32) \<and>
     Inr (Inr w, s') = NewWindow_create env xw xg xp
       (if RootDepth (xsi s) = 24 then pictformat24 s else pictformat32 s)
       (s\<lparr>trace := trace s @ [NewWindowId, NewGcontextId, NewPictureId]\<rparr>)"
proof (cases "newWindowId_res env")
  case (Inl err)
  with assms show ?thesis by (auto simp: NewWindow_def do_call_def Let_def)
next
  case xw: (Inr xw)
  show ?thesis
  proof (cases "newGcontextId_res env")
    case (Inl err)
    with assms xw show ?thesis by (auto simp: NewWindow_def do_call_def Let_def)
  next
    case xg: (Inr xg)
    show ?thesis
    proof (cases "newPictureId_res env")
      case (Inl err)
      with assms xw xg show ?thesis by (auto simp: NewWindow_def do_call_def Let_def)
    next
      case xp: (Inr xp)
      from assms have "RootDepth (xsi s) = 24 \<or> RootDepth (xsi s) = 32"
        unfolding NewWindow_ids_ok [OF xw xg xp] by (auto split: if_splits)
      moreover from assms have "Inr (Inr w, s') = NewWindow_create env xw xg xp
         (if RootDepth (xsi s) = 24 then pictformat24 s else pictformat32 s)
         (s\<lparr>trace := trace s @ [NewWindowId, NewGcontextId, NewPictureId]\<rparr>)"
        unfolding NewWindow_ids_ok [OF xw xg xp] by (auto split: if_splits)
      ultimately show ?thesis using xw xg xp by blast
    qed
  qed
qed

lemma NewWindow_success_fields:
  assumes "NewWindow env opts s = Inr (Inr w, s')"
  shows "newWindowId_res env = Inr (w_xw w)" "newPictureId_res env = Inr (w_xp w)"
    "w_xevents w = next_chan s" "next_chan s' = Suc (next_chan s)"
    "windows s' = (windows s)(w_xw w \<mapsto> w)"
    "chan_closed s' = (chan_closed s)(next_chan s := False)"
    "\<exists>pre post. trace s' = trace s @ pre @
        CreateWindow
          \<lparr>cw_Depth = RootDepth (xsi s), cw_Wid = w_xw w, cw_Parent = Root (xsi s),
           cw_X = 0, cw_Y = 0, cw_Width = 1024, cw_Height = 768,
           cw_BorderWidth = 0, cw_Class = WindowClassInputOutput,
           cw_Visual = RootVisual (xsi s), cw_ValueMask = CwEventMask,
           cw_ValueList = [window_event_mask]\<rparr> # post \<and>
        filter is_CreateWindow pre = [] \<and> filter is_CreateWindow post = [] \<and>
        filter is_CreatePicture (pre @ post) =
          [CreatePicture (w_xp w) (w_xw w)
             (if RootDepth (xsi s) = 24 then pictformat24 s else pictformat32 s)] \<and>
        (\<forall>c. ChanClose c \<notin> set (pre @ post))"
proof -
  from NewWindow_success [OF assms] obtain xw xg xp where
    ids: "newWindowId_res env = Inr xw" "newPictureId_res env = Inr xp" and
    r: "Inr (Inr w, s') = NewWindow_create env xw xg xp
       (if RootDepth (xsi s) = 24 then pictformat24 s else pictformat32 s)
       (s\<lparr>trace := trace s @ [NewWindowId, NewGcontextId, NewPictureId]\<rparr>)"
    by blast
  from r have w: "w = \<lparr>w_xw = xw, w_xg = xg, w_xp = xp, w_pump = pump_Make_res env,
               w_xevents = next_chan s\<rparr>"
    unfolding NewWindow_create_eq by simp
  from r have s': "s' = s\<lparr>trace := trace s @ [NewWindowId, NewGcontextId, NewPictureId] @
              [PumpMake, GoWindowRun (next_chan s),
               CreateWindow
                 \<lparr>cw_Depth = RootDepth (xsi s), cw_Wid = xw, cw_Parent = Root (xsi s),
                  cw_X = 0, cw_Y = 0, cw_Width = 1024, cw_Height = 768,
                  cw_BorderWidth = 0, cw_Class = WindowClassInputOutput,
                  cw_Visual = RootVisual (xsi s), cw_ValueMask = CwEventMask,
                  cw_ValueList = [window_event_mask]\<rparr>,
               ChangeProperty
                 \<lparr>cp_Mode = PropModeReplace, cp_Window = xw,
                  cp_Property = atomWMProtocols s, cp_Type = AtomAtom, cp_Format = 32,
                  cp_DataLen = 2,
                  cp_Data = spec_pack [atomWMDeleteWindow s, atomWMTakeFocus s]\<rparr>,
               CreateGC xg xw,
               CreatePicture xp xw
                 (if RootDepth (xsi s) = 24 then pictformat24 s else pictformat32 s),
               MapWindow xw],
            chan_closed := (chan_closed s)(next_chan s := False),
            chan_queue := (chan_queue s)(next_chan s := []),
            next_chan := Suc (next_chan s),
            windows := (windows s)(xw \<mapsto> w)\<rparr>"
    unfolding NewWindow_create_eq w by simp
  show "newWindowId_res env = Inr (w_xw w)" using ids w by simp
  show "newPictureId_res env = Inr (w_xp w)" using ids w by simp
  show "w_xevents w = next_chan s" using w by simp
  show "next_chan s' = Suc (next_chan s)" using s' by simp
  show "windows s' = (windows s)(w_xw w \<mapsto> w)" using s' w by simp
  show "chan_closed s' = (chan_closed s)(next_chan s := False)" using s' by simp
  show "\<exists>pre post. trace s' = trace s @ pre @
        CreateWindow
          \<lparr>cw_Depth = RootDepth (xsi s), cw_Wid = w_xw w, cw_Parent = Root (xsi s),
           cw_X = 0, cw_Y = 0, cw_Width = 1024, cw_Height = 768,
           cw_BorderWidth = 0, cw_Class = WindowClassInputOutput,
           cw_Visual = RootVisual (xsi s), cw_ValueMask = CwEventMask,
           cw_ValueList = [window_event_mask]\<rparr> # post \<and>
        filter is_CreateWindow pre = [] \<and> filter is_CreateWindow post = [] \<and>
        filter is_CreatePicture (pre @ post) =
          [CreatePicture (w_xp w) (w_xw w)
             (if RootDepth (xsi s) = 24 then pictformat24 s else pictformat32 s)] \<and>
        (\<forall>c. ChanClose c \<notin> set (pre @ post))"
    apply (rule exI [of _ "[NewWindowId, NewGcontextId, NewPictureId, PumpMake,
             GoWindowRun (next_chan s)]"])
    apply (rule exI [of _ "[ChangeProperty
                 \<lparr>cp_Mode = PropModeReplace, cp_Window = xw,
                  cp_Property = atomWMProtocols s, cp_Type = AtomAtom, cp_Format = 32,
                  cp_DataLen = 2,
                  cp_Data = spec_pack [atomWMDeleteWindow s, atomWMTakeFocus s]\<rparr>,
               CreateGC xg xw,
               CreatePicture xp xw
                 (if RootDepth (xsi s) = 24 then pictformat24 s else pictformat32 s),
               MapWindow xw]"])
    using s' w by (simp add: is_CreateWindow_def is_CreatePicture_def)
qed


lemma NewWindow_succeeds:
  assumes "newWindowId_res env = Inr xw" "newGcontextId_res env = Inr xg"
    "newPictureId_res env = Inr xp"
    and "RootDepth (xsi s) = 24 \<or> RootDepth (xsi s) = 32"
  shows "\<exists>w s'. NewWindow env opts s = Inr (Inr w, s') \<and> w_xw w = xw \<and> w_xp w = xp \<and>
     windows s' = (windows s)(xw \<mapsto> w) \<and>
     filter is_CreatePicture (drop (length (trace s)) (trace s')) =
       [CreatePicture xp xw
          (if RootDepth (xsi s) = 24 then pictformat24 s else pictformat32 s)]"
proof -
  from assms(4) have "\<exists>w s'. NewWindow env opts s = Inr (Inr w, s')"
    unfolding NewWindow_ids_ok [OF assms(1-3)] NewWindow_create_eq by auto
  then obtain w s' where ok: "NewWindow env opts s = Inr (Inr w, s')" by blast
  note f = NewWindow_success_fields [OF ok]
  from f(1) assms(1) have xw: "w_xw w = xw" by simp
  from f(2) assms(3) have xp: "w_xp w = xp" by simp
  from f(7) have "filter is_CreatePicture (drop (length (trace s)) (trace s')) =
        [CreatePicture (w_xp w) (w_xw w)
           (if RootDepth (xsi s) = 24 then pictformat24 s else pictformat32 s)]"
    by (auto simp: is_CreatePicture_def)
  with ok f(5) xw xp show ?thesis by auto
qed

text \<open>
  C7: with the three ids granted, \<open>NewWindow\<close> at root depth 24 returns a window,
  registers it and creates its picture with \<open>pictformat24\<close>, and at root depth 32 it does
  the same with \<open>pictformat32\<close>. It returns an error when the root depth is neither 24
  nor 32, and when the window, graphics context or picture id is refused; after any error
  the window table is as before.
\<close>

theorem NewWindow_error_paths:
  "(\<forall>xw xg xp. newWindowId_res env = Inr xw \<and> newGcontextId_res env = Inr xg \<and>
        newPictureId_res env = Inr xp \<and> RootDepth (xsi s) = 24 \<longrightarrow>
      (\<exists>w s'. NewWindow env opts s = Inr (Inr w, s') \<and> w_xw w = xw \<and> w_xp w = xp \<and>
         windows s' = (windows s)(xw \<mapsto> w) \<and>
         filter is_CreatePicture (drop (length (trace s)) (trace s')) =
           [CreatePicture xp xw (pictformat24 s)])) \<and>
   (\<forall>xw xg xp. newWindowId_res env = Inr xw \<and> newGcontextId_res env = Inr xg \<and>
        newPictureId_res env = Inr xp \<and> RootDepth (xsi s) = 32 \<longrightarrow>
      (\<exists>w s'. NewWindow env opts s = Inr (Inr w, s') \<and> w_xw w = xw \<and> w_xp w = xp \<and>
         windows s' = (windows s)(xw \<mapsto> w) \<and>
         filter is_CreatePicture (drop (length (trace s)) (trace s')) =
           [CreatePicture xp xw (pictformat32 s)])) \<and>
   (RootDepth (xsi s) \<noteq> 24 \<and> RootDepth (xsi s) \<noteq> 32 \<longrightarrow>
      (\<exists>e s'. NewWindow env opts s = Inr (Inl e, s')) \<and>
      (\<forall>xw xg xp. newWindowId_res env = Inr xw \<and> newGcontextId_res env = Inr xg \<and>
           newPictureId_res env = Inr xp \<longrightarrow>
         (\<exists>s'. NewWindow env opts s =
            Inr (Inl (UnsupportedRootDepth (RootDepth (xsi s))), s')))) \<and>
   (\<forall>err. newWindowId_res env = Inl err \<longrightarrow>
      (\<exists>s'. NewWindow env opts s = Inr (Inl (NewWindowIdFailed err), s'))) \<and>
   (\<forall>xw err. newWindowId_res env = Inr xw \<and> newGcontextId_res env = Inl err \<longrightarrow>
      (\<exists>s'. NewWindow env opts s = Inr (Inl (NewGcontextIdFailed err), s'))) \<and>
   (\<forall>xw xg err. newWindowId_res env = Inr xw \<and> newGcontextId_res env = Inr xg \<and>
        newPictureId_res env = Inl err \<longrightarrow>
      (\<exists>s'. NewWindow env opts s = Inr (Inl (NewPictureIdFailed err), s'))) \<and>
   (\<forall>e s'. NewWindow env opts s = Inr (Inl e, s') \<longrightarrow> windows s' = windows s) \<and>
   (\<forall>w s'. NewWindow env opts s = Inr (Inr w, s') \<longrightarrow>
      (RootDepth (xsi s) = 24 \<or> RootDepth (xsi s) = 32) \<and>
      filter is_CreatePicture (drop (length (trace s)) (trace s')) =
        [CreatePicture (w_xp w) (w_xw w)
           (if RootDepth (xsi s) = 24 then pictformat24 s else pictformat32 s)])"
proof (intro conjI allI impI)
  fix xw xg xp
  assume a: "newWindowId_res env = Inr xw \<and> newGcontextId_res env = Inr xg \<and>
        newPictureId_res env = Inr xp \<and> RootDepth (xsi s) = 24"
  then have "RootDepth (xsi s) = 24 \<or> RootDepth (xsi s) = 32" by simp
  from NewWindow_succeeds [OF _ _ _ this, of env xw xg xp opts] a
  show "\<exists>w s'. NewWindow env opts s = Inr (Inr w, s') \<and> w_xw w = xw \<and> w_xp w = xp \<and>
         windows s' = (windows s)(xw \<mapsto> w) \<and>
         filter is_CreatePicture (drop (length (trace s)) (trace s')) =
           [CreatePicture xp xw (pictformat24 s)]"
    by simp
next
  fix xw xg xp
  assume a: "newWindowId_res env = Inr xw \<and> newGcontextId_res env = Inr xg \<and>
        newPictureId_res env = Inr xp \<and> RootDepth (xsi s) = 32"
  then have "RootDepth (xsi s) = 24 \<or> RootDepth (xsi s) = 32" by simp
  from NewWindow_succeeds [OF _ _ _ this, of env xw xg xp opts] a
  show "\<exists>w s'. NewWindow env opts s = Inr (Inr w, s') \<and> w_xw w = xw \<and> w_xp w = xp \<and>
         windows s' = (windows s)(xw \<mapsto> w) \<and>
         filter is_CreatePicture (drop (length (trace s)) (trace s')) =
           [CreatePicture xp xw (pictformat32 s)]"
    by simp
next
  assume d: "RootDepth (xsi s) \<noteq> 24 \<and> RootDepth (xsi s) \<noteq> 32"
  show "\<exists>e s'. NewWindow env opts s = Inr (Inl e, s')"
  proof (cases "newWindowId_res env")
    case (Inl err)
    then show ?thesis by (simp add: NewWindow_def Let_def)
  next
    case xw: (Inr xw)
    show ?thesis
    proof (cases "newGcontextId_res env")
      case (Inl err)
      with xw show ?thesis by (simp add: NewWindow_def Let_def)
    next
      case xg: (Inr xg)
      show ?thesis
      proof (cases "newPictureId_res env")
        case (Inl err)
        with xw xg show ?thesis by (simp add: NewWindow_def Let_def)
      next
        case xp: (Inr xp)
        from d show ?thesis by (simp add: NewWindow_ids_ok [OF xw xg xp])
      qed
    qed
  qed
next
  fix xw xg xp
  assume d: "RootDepth (xsi s) \<noteq> 24 \<and> RootDepth (xsi s) \<noteq> 32"
    and ids: "newWindowId_res env = Inr xw \<and> newGcontextId_res env = Inr xg \<and>
           newPictureId_res env = Inr xp"
  from ids have i: "newWindowId_res env = Inr xw" "newGcontextId_res env = Inr xg"
    "newPictureId_res env = Inr xp" by simp_all
  from d show "\<exists>s'. NewWindow env opts s =
      Inr (Inl (UnsupportedRootDepth (RootDepth (xsi s))), s')"
    by (simp add: NewWindow_ids_ok [OF i])
next
  fix err assume "newWindowId_res env = Inl err"
  then show "\<exists>s'. NewWindow env opts s = Inr (Inl (NewWindowIdFailed err), s')"
    by (simp add: NewWindow_def Let_def)
next
  fix xw err assume "newWindowId_res env = Inr xw \<and> newGcontextId_res env = Inl err"
  then show "\<exists>s'. NewWindow env opts s = Inr (Inl (NewGcontextIdFailed err), s')"
    by (simp add: NewWindow_def Let_def)
next
  fix xw xg err
  assume "newWindowId_res env = Inr xw \<and> newGcontextId_res env = Inr xg \<and>
        newPictureId_res env = Inl err"
  then show "\<exists>s'. NewWindow env opts s = Inr (Inl (NewPictureIdFailed err), s')"
    by (simp add: NewWindow_def Let_def)
next
  fix e s' assume "NewWindow env opts s = Inr (Inl e, s')"
  then show "windows s' = windows s" by (rule NewWindow_error_keeps_windows)
next
  fix w s' assume ok: "NewWindow env opts s = Inr (Inr w, s')"
  from NewWindow_success [OF ok] show "RootDepth (xsi s) = 24 \<or> RootDepth (xsi s) = 32"
    by blast
  from NewWindow_success_fields(7) [OF ok]
  show "filter is_CreatePicture (drop (length (trace s)) (trace s')) =
        [CreatePicture (w_xp w) (w_xw w)
           (if RootDepth (xsi s) = 24 then pictformat24 s else pictformat32 s)]"
    by (auto simp: is_CreatePicture_def)
qed

theorem NewWindow_error_paths_witness:
  "(\<exists>w s'. NewWindow demo_window_env (None :: unit option) demo_screen24f = Inr (Inr w, s') \<and>
      windows s' 9 = Some w \<and>
      filter is_CreatePicture (trace s') = [CreatePicture 11 9 101]) \<and>
   (\<exists>w s'. NewWindow demo_window_env (None :: unit option) demo_screen32f = Inr (Inr w, s') \<and>
      windows s' 9 = Some w \<and>
      filter is_CreatePicture (trace s') = [CreatePicture 11 9 102]) \<and>
   (\<exists>s'. NewWindow demo_window_env (None :: unit option) demo_screen16 =
      Inr (Inl (UnsupportedRootDepth 16), s') \<and> windows s' = Map.empty) \<and>
   (\<exists>s'. NewWindow no_gc_env (None :: unit option) demo_screen =
      Inr (Inl (NewGcontextIdFailed ''out of ids''), s') \<and> windows s' = Map.empty)"
proof -
  have ids: "newWindowId_res demo_window_env = Inr 9 \<and>
      newGcontextId_res demo_window_env = Inr 10 \<and> newPictureId_res demo_window_env = Inr 11"
    by (simp add: demo_window_env_def)
  have d: "RootDepth (xsi demo_screen16) \<noteq> 24 \<and> RootDepth (xsi demo_screen16) \<noteq> 32"
    "RootDepth (xsi demo_screen16) = 16"
    by (simp_all add: demo_screen16_def new_screen_def)
  have d24: "RootDepth (xsi demo_screen24f) = 24" "pictformat24 demo_screen24f = 101"
    "trace demo_screen24f = []"
    by (simp_all add: demo_screen24f_def new_screen_def)
  have d32: "RootDepth (xsi demo_screen32f) = 32" "pictformat32 demo_screen32f = 102"
    "trace demo_screen32f = []"
    by (simp_all add: demo_screen32f_def new_screen_def)
  have gc: "newWindowId_res no_gc_env = Inr 9 \<and> newGcontextId_res no_gc_env = Inl ''out of ids''"
    by (simp add: no_gc_env_def)
  have e: "windows demo_screen16 = Map.empty" "windows demo_screen = Map.empty"
    by (simp_all add: demo_screen16_def demo_screen_def new_screen_def)
  note a = NewWindow_error_paths
    [where env = demo_window_env and s = demo_screen16 and opts = "None :: unit option"]
  note b = NewWindow_error_paths
    [where env = no_gc_env and s = demo_screen and opts = "None :: unit option"]
  note p = NewWindow_error_paths
    [where env = demo_window_env and s = demo_screen24f and opts = "None :: unit option"]
  note q = NewWindow_error_paths
    [where env = demo_window_env and s = demo_screen32f and opts = "None :: unit option"]
  have h24: "newWindowId_res demo_window_env = Inr 9 \<and>
      newGcontextId_res demo_window_env = Inr 10 \<and> newPictureId_res demo_window_env = Inr 11 \<and>
      RootDepth (xsi demo_screen24f) = 24"
    using ids d24(1) by simp
  have h32: "newWindowId_res demo_window_env = Inr 9 \<and>
      newGcontextId_res demo_window_env = Inr 10 \<and> newPictureId_res demo_window_env = Inr 11 \<and>
      RootDepth (xsi demo_screen32f) = 32"
    using ids d32(1) by simp
  from p [THEN conjunct1, rule_format, OF h24] obtain w1 t1 where
    "NewWindow demo_window_env (None :: unit option) demo_screen24f = Inr (Inr w1, t1)"
    "windows t1 = (windows demo_screen24f)(9 \<mapsto> w1)"
    "filter is_CreatePicture (drop (length (trace demo_screen24f)) (trace t1)) =
       [CreatePicture 11 9 (pictformat24 demo_screen24f)]"
    by blast
  with d24 have c24: "\<exists>w s'. NewWindow demo_window_env (None :: unit option) demo_screen24f =
      Inr (Inr w, s') \<and> windows s' 9 = Some w \<and>
      filter is_CreatePicture (trace s') = [CreatePicture 11 9 101]"
    by simp
  from q [THEN conjunct2, THEN conjunct1, rule_format, OF h32] obtain w2 t2 where
    "NewWindow demo_window_env (None :: unit option) demo_screen32f = Inr (Inr w2, t2)"
    "windows t2 = (windows demo_screen32f)(9 \<mapsto> w2)"
    "filter is_CreatePicture (drop (length (trace demo_screen32f)) (trace t2)) =
       [CreatePicture 11 9 (pictformat32 demo_screen32f)]"
    by blast
  with d32 have c32: "\<exists>w s'. NewWindow demo_window_env (None :: unit option) demo_screen32f =
      Inr (Inr w, s') \<and> windows s' 9 = Some w \<and>
      filter is_CreatePicture (trace s') = [CreatePicture 11 9 102]"
    by simp
  from a d ids obtain s1 where s1: "NewWindow demo_window_env (None :: unit option) demo_screen16 =
      Inr (Inl (UnsupportedRootDepth 16), s1)"
    by metis
  from a s1 have k1: "windows s1 = windows demo_screen16" by blast
  from b gc obtain s2 where s2: "NewWindow no_gc_env (None :: unit option) demo_screen =
      Inr (Inl (NewGcontextIdFailed ''out of ids''), s2)"
    by metis
  from b s2 have k2: "windows s2 = windows demo_screen" by blast
  from s1 k1 s2 k2 e have "(\<exists>s'. NewWindow demo_window_env (None :: unit option) demo_screen16 =
      Inr (Inl (UnsupportedRootDepth 16), s') \<and> windows s' = Map.empty) \<and>
   (\<exists>s'. NewWindow no_gc_env (None :: unit option) demo_screen =
      Inr (Inl (NewGcontextIdFailed ''out of ids''), s') \<and> windows s' = Map.empty)"
    by auto
  with c24 c32 show ?thesis by blast
qed

text \<open>
  C10: the result of \<open>NewWindow\<close> does not depend on the options, nil or not, and the one
  \<open>CreateWindow\<close> request of a successful call asks for 1024 by 768 pixels at (0, 0).
\<close>

theorem NewWindow_ignores_options:
  "NewWindow env opts s = NewWindow env opts' s \<and>
   (\<forall>w s'. NewWindow env opts s = Inr (Inr w, s') \<longrightarrow>
      (\<exists>req. filter is_CreateWindow (drop (length (trace s)) (trace s')) = [CreateWindow req] \<and>
         cw_Wid req = w_xw w \<and>
         cw_X req = 0 \<and> cw_Y req = 0 \<and> cw_Width req = 1024 \<and> cw_Height req = 768))"
proof (intro conjI allI impI)
  show "NewWindow env opts s = NewWindow env opts' s"
    by (simp add: NewWindow_def)
next
  fix w s' assume ok: "NewWindow env opts s = Inr (Inr w, s')"
  from NewWindow_success_fields(7) [OF ok]
  show "\<exists>req. filter is_CreateWindow (drop (length (trace s)) (trace s')) = [CreateWindow req] \<and>
         cw_Wid req = w_xw w \<and>
         cw_X req = 0 \<and> cw_Y req = 0 \<and> cw_Width req = 1024 \<and> cw_Height req = 768"
    by (auto simp: is_CreateWindow_def)
qed

theorem NewWindow_ignores_options_witness:
  "NewWindow demo_window_env (None :: nat option) demo_screen =
     NewWindow demo_window_env (Some (7 :: nat)) demo_screen \<and>
   (\<exists>w s' req. NewWindow demo_window_env (Some (7 :: nat)) demo_screen = Inr (Inr w, s') \<and>
      filter is_CreateWindow (trace s') = [CreateWindow req] \<and> cw_Wid req = 9 \<and>
      cw_X req = 0 \<and> cw_Y req = 0 \<and> cw_Width req = 1024 \<and> cw_Height req = 768)"
proof -
  note t = NewWindow_ignores_options [of demo_window_env "Some (7 :: nat)" demo_screen]
  have ids: "newWindowId_res demo_window_env = Inr 9" "newGcontextId_res demo_window_env = Inr 10"
    "newPictureId_res demo_window_env = Inr 11"
    by (simp_all add: demo_window_env_def)
  have d: "RootDepth (xsi demo_screen) = 24" "trace demo_screen = []"
    by (simp_all add: demo_screen_def new_screen_def)
  obtain w s' where ok: "NewWindow demo_window_env (Some (7 :: nat)) demo_screen = Inr (Inr w, s')"
    and w: "w_xw w = 9"
    unfolding NewWindow_ids_ok [OF ids] NewWindow_create_eq using d by simp
  from t [of "None :: nat option"] ok obtain req where
    "filter is_CreateWindow (drop (length (trace demo_screen)) (trace s')) = [CreateWindow req]"
    "cw_Wid req = w_xw w" "cw_X req = 0" "cw_Y req = 0" "cw_Width req = 1024"
    "cw_Height req = 768"
    by blast
  with ok w d t [of "None :: nat option"] show ?thesis by auto
qed


section \<open>Format negotiation\<close>

lemma find_format_Inr:
  "find_format fs d want = Inr i \<Longrightarrow>
     \<exists>f\<in>set fs. pf_Id f = i \<and> pf_Type f = PictTypeDirect \<and> pf_Depth f = d \<and> pf_Direct f = want"
  by (induction fs) (auto split: if_splits)

lemma find_format_none:
  "\<forall>f\<in>set fs. \<not> (pf_Type f = PictTypeDirect \<and> pf_Depth f = d \<and> pf_Direct f = want) \<Longrightarrow>
     find_format fs d want = Inl (NoMatchingPictformat d)"
  by (induction fs) auto

lemma find_format_some:
  "\<exists>f\<in>set fs. pf_Type f = PictTypeDirect \<and> pf_Depth f = d \<and> pf_Direct f = want \<Longrightarrow>
     \<exists>i. find_format fs d want = Inr i"
  by (induction fs) auto

lemma want24:
  "pf_Direct f = want_format 24 \<longleftrightarrow>
     RedShift (pf_Direct f) = 16 \<and> RedMask (pf_Direct f) = 0xff \<and>
     GreenShift (pf_Direct f) = 8 \<and> GreenMask (pf_Direct f) = 0xff \<and>
     BlueShift (pf_Direct f) = 0 \<and> BlueMask (pf_Direct f) = 0xff \<and>
     AlphaShift (pf_Direct f) = 0 \<and> AlphaMask (pf_Direct f) = 0"
  by (cases "pf_Direct f") (auto simp: want_format_def)

lemma want32:
  "pf_Direct f = want_format 32 \<longleftrightarrow>
     RedShift (pf_Direct f) = 16 \<and> RedMask (pf_Direct f) = 0xff \<and>
     GreenShift (pf_Direct f) = 8 \<and> GreenMask (pf_Direct f) = 0xff \<and>
     BlueShift (pf_Direct f) = 0 \<and> BlueMask (pf_Direct f) = 0xff \<and>
     AlphaShift (pf_Direct f) = 24 \<and> AlphaMask (pf_Direct f) = 0xff"
  by (cases "pf_Direct f") (auto simp: want_format_def)

lemma match24:
  "pf_Type f = PictTypeDirect \<and> pf_Depth f = 24 \<and> pf_Direct f = want_format 24 \<longleftrightarrow>
     spec_format24 f \<and> AlphaShift (pf_Direct f) = 0"
  unfolding want24 by (auto simp: spec_format24_def spec_rgb8_def)

lemma match32:
  "pf_Type f = PictTypeDirect \<and> pf_Depth f = 32 \<and> pf_Direct f = want_format 32 \<longleftrightarrow>
     spec_format32 f"
  unfolding want32 by (auto simp: spec_format32_def spec_rgb8_def)

lemma find_format_first:
  "find_format fs d want = Inr i \<Longrightarrow>
     \<exists>pre f post. fs = pre @ f # post \<and> pf_Id f = i \<and>
       (pf_Type f = PictTypeDirect \<and> pf_Depth f = d \<and> pf_Direct f = want) \<and>
       (\<forall>g\<in>set pre. \<not> (pf_Type g = PictTypeDirect \<and> pf_Depth g = d \<and> pf_Direct g = want))"
proof (induction fs)
  case Nil
  then show ?case by simp
next
  case (Cons f fs)
  show ?case
  proof (cases "pf_Type f = PictTypeDirect \<and> pf_Depth f = d \<and> pf_Direct f = want")
    case True
    with Cons.prems have "pf_Id f = i" by simp
    with True show ?thesis by (intro exI [of _ "[]"] exI [of _ f] exI [of _ fs]) simp
  next
    case False
    with Cons.prems have "find_format fs d want = Inr i" by auto
    from Cons.IH [OF this] obtain pre g post where
      p: "fs = pre @ g # post" "pf_Id g = i"
        "pf_Type g = PictTypeDirect \<and> pf_Depth g = d \<and> pf_Direct g = want"
        "\<forall>h\<in>set pre. \<not> (pf_Type h = PictTypeDirect \<and> pf_Depth h = d \<and> pf_Direct h = want)"
      by blast
    with False show ?thesis
      by (intro exI [of _ "f # pre"] exI [of _ g] exI [of _ post]) simp
  qed
qed

lemma findPictformat24_none:
  assumes "\<forall>f\<in>set fs. \<not> (spec_format24 f \<and> AlphaShift (pf_Direct f) = 0)"
  shows "findPictformat fs 24 = Inl (NoMatchingPictformat 24)"
  unfolding findPictformat_def
  by (rule find_format_none) (use assms match24 in blast)

lemma findPictformat32_none:
  assumes "\<forall>f\<in>set fs. \<not> spec_format32 f"
  shows "findPictformat fs 32 = Inl (NoMatchingPictformat 32)"
  unfolding findPictformat_def
  by (rule find_format_none) (use assms match32 in blast)

lemma initPictformats_succeeds:
  assumes "queryPictFormats_res env = Inr fs"
    and "findPictformat fs 24 = Inr a" "findPictformat fs 32 = Inr b"
  shows "\<exists>s'. initPictformats env s = (None, s') \<and> pictformat24 s' = a \<and> pictformat32 s' = b"
  using assms by (simp add: initPictformats_def Let_def)

lemma initPictformats_fails:
  assumes "queryPictFormats_res env = Inr fs"
    and "findPictformat fs 24 = Inl e24 \<or> findPictformat fs 32 = Inl e32"
  shows "\<exists>e. fst (initPictformats env s) = Some e"
  using assms by (auto simp: initPictformats_def Let_def split: sum.splits)

lemma newScreenImpl_fails:
  assumes "\<And>s. \<exists>e. fst (initPictformats env s) = Some e"
  shows "\<exists>e. newScreenImpl env = Inl e"
proof (cases "initAtoms env (new_screen (defaultScreen env))")
  case (Pair r s1)
  show ?thesis
  proof (cases r)
    case (Some e)
    with Pair show ?thesis by (simp add: newScreenImpl_def Let_def)
  next
    case None
    from assms [of s1] obtain e where "fst (initPictformats env s1) = Some e" by blast
    then obtain s2 where "initPictformats env s1 = (Some e, s2)"
      by (cases "initPictformats env s1") simp
    with Pair None show ?thesis by (simp add: newScreenImpl_def Let_def)
  qed
qed

text \<open>
  C5, as the claim states it, fails: a server advertises, for depth 24, a direct format
  with 8-bit red, green and blue at shifts 16, 8 and 0 and no alpha field (alpha mask 0),
  and for depth 32 the same layout with an 8-bit alpha field at shift 24. The depth-24
  format carries alpha shift 24, so \<open>findPictformat\<close> does not select it: negotiation
  returns an error and \<open>newScreenImpl\<close> returns no instance.
\<close>

theorem findPictformat_rejects_shifted_alpha:
  "spec_format24 shifted_alpha_format \<and> spec_format32 alpha32_format \<and>
   queryPictFormats_res shifted_alpha_env = Inr [shifted_alpha_format, alpha32_format] \<and>
   findPictformat [shifted_alpha_format, alpha32_format] 24 = Inl (NoMatchingPictformat 24) \<and>
   newScreenImpl shifted_alpha_env = Inl (NoMatchingPictformat 24)"
proof -
  have "spec_format24 shifted_alpha_format" "spec_format32 alpha32_format"
    by (simp_all add: spec_format24_def spec_format32_def spec_rgb8_def
        shifted_alpha_format_def alpha32_format_def PictTypeDirect_def)
  moreover have "queryPictFormats_res shifted_alpha_env =
      Inr [shifted_alpha_format, alpha32_format]"
    by (simp add: shifted_alpha_env_def)
  moreover have "findPictformat [shifted_alpha_format, alpha32_format] 24 =
      Inl (NoMatchingPictformat 24)"
    by (simp add: findPictformat_def want_format_def shifted_alpha_format_def
        alpha32_format_def PictTypeDirect_def)
  moreover have "newScreenImpl shifted_alpha_env = Inl (NoMatchingPictformat 24)"
    by (simp add: newScreenImpl_def initAtoms_def internAtom_def initPictformats_def
        findPictformat_def shifted_alpha_env_def shifted_alpha_format_def alpha32_format_def
        want_format_def PictTypeDirect_def Let_def do_call_def new_screen_def)
  ultimately show ?thesis by blast
qed

text \<open>
  C5, amended: the format that \<open>findPictformat\<close> returns for depth 24 is the first
  advertised direct format with 8-bit red, green and blue at shifts 16, 8 and 0 whose
  alpha mask and alpha shift are both 0; for depth 32 it is the first with the same colour
  layout and an 8-bit alpha field at shift 24. Such a format is found whenever the server
  advertises one, and then \<open>initPictformats\<close> stores the two ids. When the server
  advertises no such format for one of the two depths, \<open>findPictformat\<close> returns an
  error, \<open>initPictformats\<close> returns an error and \<open>newScreenImpl\<close> returns no instance.
\<close>

theorem findPictformat_exact_negotiation:
  "(\<forall>i. findPictformat fs 24 = Inr i \<longrightarrow>
      (\<exists>pre f post. fs = pre @ f # post \<and> pf_Id f = i \<and>
         (spec_format24 f \<and> AlphaShift (pf_Direct f) = 0) \<and>
         (\<forall>g\<in>set pre. \<not> (spec_format24 g \<and> AlphaShift (pf_Direct g) = 0)))) \<and>
   (\<forall>i. findPictformat fs 32 = Inr i \<longrightarrow>
      (\<exists>pre f post. fs = pre @ f # post \<and> pf_Id f = i \<and> spec_format32 f \<and>
         (\<forall>g\<in>set pre. \<not> spec_format32 g))) \<and>
   ((\<exists>f\<in>set fs. spec_format24 f \<and> AlphaShift (pf_Direct f) = 0) \<longrightarrow>
      (\<exists>i. findPictformat fs 24 = Inr i)) \<and>
   ((\<exists>f\<in>set fs. spec_format32 f) \<longrightarrow> (\<exists>i. findPictformat fs 32 = Inr i)) \<and>
   ((\<forall>f\<in>set fs. \<not> (spec_format24 f \<and> AlphaShift (pf_Direct f) = 0)) \<longrightarrow>
      findPictformat fs 24 = Inl (NoMatchingPictformat 24)) \<and>
   ((\<forall>f\<in>set fs. \<not> spec_format32 f) \<longrightarrow>
      findPictformat fs 32 = Inl (NoMatchingPictformat 32)) \<and>
   (queryPictFormats_res env = Inr fs \<and>
    ((\<forall>f\<in>set fs. \<not> (spec_format24 f \<and> AlphaShift (pf_Direct f) = 0)) \<or>
     (\<forall>f\<in>set fs. \<not> spec_format32 f)) \<longrightarrow>
      (\<forall>s. \<exists>e. fst (initPictformats env s) = Some e) \<and> (\<exists>e. newScreenImpl env = Inl e)) \<and>
   (\<forall>a b. queryPictFormats_res env = Inr fs \<and> findPictformat fs 24 = Inr a \<and>
      findPictformat fs 32 = Inr b \<longrightarrow>
      (\<forall>s. \<exists>s'. initPictformats env s = (None, s') \<and>
         pictformat24 s' = a \<and> pictformat32 s' = b))"
proof -
  have c1: "\<forall>i. findPictformat fs 24 = Inr i \<longrightarrow>
      (\<exists>pre f post. fs = pre @ f # post \<and> pf_Id f = i \<and>
         (spec_format24 f \<and> AlphaShift (pf_Direct f) = 0) \<and>
         (\<forall>g\<in>set pre. \<not> (spec_format24 g \<and> AlphaShift (pf_Direct g) = 0)))"
    unfolding findPictformat_def match24 [symmetric] by (blast dest: find_format_first)
  have c2: "\<forall>i. findPictformat fs 32 = Inr i \<longrightarrow>
      (\<exists>pre f post. fs = pre @ f # post \<and> pf_Id f = i \<and> spec_format32 f \<and>
         (\<forall>g\<in>set pre. \<not> spec_format32 g))"
    unfolding findPictformat_def match32 [symmetric] by (blast dest: find_format_first)
  have c3: "(\<exists>f\<in>set fs. spec_format24 f \<and> AlphaShift (pf_Direct f) = 0) \<longrightarrow>
      (\<exists>i. findPictformat fs 24 = Inr i)"
    unfolding findPictformat_def match24 [symmetric] by (blast intro: find_format_some)
  have c4: "(\<exists>f\<in>set fs. spec_format32 f) \<longrightarrow> (\<exists>i. findPictformat fs 32 = Inr i)"
    unfolding findPictformat_def match32 [symmetric] by (blast intro: find_format_some)
  have c5: "(\<forall>f\<in>set fs. \<not> (spec_format24 f \<and> AlphaShift (pf_Direct f) = 0)) \<longrightarrow>
      findPictformat fs 24 = Inl (NoMatchingPictformat 24)"
    by (blast intro: findPictformat24_none)
  have c6: "(\<forall>f\<in>set fs. \<not> spec_format32 f) \<longrightarrow>
      findPictformat fs 32 = Inl (NoMatchingPictformat 32)"
    by (blast intro: findPictformat32_none)
  have c7: "queryPictFormats_res env = Inr fs \<and>
    ((\<forall>f\<in>set fs. \<not> (spec_format24 f \<and> AlphaShift (pf_Direct f) = 0)) \<or>
     (\<forall>f\<in>set fs. \<not> spec_format32 f)) \<longrightarrow>
      (\<forall>s. \<exists>e. fst (initPictformats env s) = Some e) \<and> (\<exists>e. newScreenImpl env = Inl e)"
  proof
    assume a: "queryPictFormats_res env = Inr fs \<and>
      ((\<forall>f\<in>set fs. \<not> (spec_format24 f \<and> AlphaShift (pf_Direct f) = 0)) \<or>
       (\<forall>f\<in>set fs. \<not> spec_format32 f))"
    with c5 c6 have f: "findPictformat fs 24 = Inl (NoMatchingPictformat 24) \<or>
        findPictformat fs 32 = Inl (NoMatchingPictformat 32)"
      by blast
    have i: "\<exists>e. fst (initPictformats env s) = Some e" for s
      using a f by (intro initPictformats_fails) auto
    then have "\<exists>e. newScreenImpl env = Inl e" by (rule newScreenImpl_fails)
    with i show "(\<forall>s. \<exists>e. fst (initPictformats env s) = Some e) \<and>
        (\<exists>e. newScreenImpl env = Inl e)"
      by blast
  qed
  have c8: "\<forall>a b. queryPictFormats_res env = Inr fs \<and> findPictformat fs 24 = Inr a \<and>
      findPictformat fs 32 = Inr b \<longrightarrow>
      (\<forall>s. \<exists>s'. initPictformats env s = (None, s') \<and>
         pictformat24 s' = a \<and> pictformat32 s' = b)"
    by (blast intro: initPictformats_succeeds)
  show ?thesis
    by (rule conjI [OF c1 conjI [OF c2 conjI [OF c3 conjI [OF c4 conjI [OF c5
          conjI [OF c6 conjI [OF c7 c8]]]]]]])
qed

theorem findPictformat_exact_negotiation_witness:
  "findPictformat demo_formats 24 = Inr 101 \<and> findPictformat demo_formats 32 = Inr 102 \<and>
   (\<exists>f\<in>set demo_formats. pf_Id f = 101 \<and> spec_format24 f \<and> AlphaShift (pf_Direct f) = 0) \<and>
   (\<exists>f\<in>set demo_formats. pf_Id f = 102 \<and> spec_format32 f) \<and>
   findPictformat demo_formats16 24 = Inl (NoMatchingPictformat 24) \<and>
   findPictformat [shifted_alpha_format, alpha32_format] 24 = Inl (NoMatchingPictformat 24) \<and>
   newScreenImpl demo_init_env16 = Inl (NoMatchingPictformat 24) \<and>
   (\<exists>e. newScreenImpl demo_init_env16 = Inl e) \<and>
   (\<exists>e. newScreenImpl shifted_alpha_env = Inl e)"
proof -
  have a: "findPictformat demo_formats 24 = Inr 101" "findPictformat demo_formats 32 = Inr 102"
    by (simp_all add: findPictformat_def demo_formats_def want_format_def PictTypeDirect_def)
  have n: "\<forall>f\<in>set demo_formats16. \<not> (spec_format24 f \<and> AlphaShift (pf_Direct f) = 0)"
    by (simp add: demo_formats16_def spec_format24_def)
  have m: "\<forall>f\<in>set [shifted_alpha_format, alpha32_format].
      \<not> (spec_format24 f \<and> AlphaShift (pf_Direct f) = 0)"
    by (simp add: shifted_alpha_format_def alpha32_format_def spec_format24_def)
  have q: "queryPictFormats_res demo_init_env16 = Inr demo_formats16"
    "queryPictFormats_res shifted_alpha_env = Inr [shifted_alpha_format, alpha32_format]"
    by (simp_all add: demo_init_env16_def shifted_alpha_env_def)
  note t = findPictformat_exact_negotiation [of demo_formats demo_init_env16]
  note u = findPictformat_exact_negotiation [of demo_formats16 demo_init_env16]
  note v = findPictformat_exact_negotiation
    [of "[shifted_alpha_format, alpha32_format]" shifted_alpha_env]
  have c: "newScreenImpl demo_init_env16 = Inl (NoMatchingPictformat 24)"
    by (simp add: newScreenImpl_def initAtoms_def internAtom_def initPictformats_def
        findPictformat_def demo_init_env16_def demo_formats16_def want_format_def
        PictTypeDirect_def Let_def do_call_def new_screen_def)
  from t a obtain pre f post where pf: "demo_formats = pre @ f # post"
    and f: "pf_Id f = 101" "spec_format24 f \<and> AlphaShift (pf_Direct f) = 0"
    by blast
  have "f \<in> set demo_formats" by (subst pf) simp
  with f have w1: "\<exists>f\<in>set demo_formats. pf_Id f = 101 \<and> spec_format24 f \<and>
      AlphaShift (pf_Direct f) = 0"
    by blast
  from t a obtain pre' g post' where pg: "demo_formats = pre' @ g # post'"
    and g: "pf_Id g = 102" "spec_format32 g"
    by blast
  have "g \<in> set demo_formats" by (subst pg) simp
  with g have w2: "\<exists>f\<in>set demo_formats. pf_Id f = 102 \<and> spec_format32 f"
    by blast
  from u n have w3: "findPictformat demo_formats16 24 = Inl (NoMatchingPictformat 24)"
    by blast
  from v m have w4: "findPictformat [shifted_alpha_format, alpha32_format] 24 =
      Inl (NoMatchingPictformat 24)"
    by blast
  from u n q have w5: "\<exists>e. newScreenImpl demo_init_env16 = Inl e"
    by blast
  from v m q have w6: "\<exists>e. newScreenImpl shifted_alpha_env = Inl e"
    by blast
  from a w1 w2 w3 w4 c w5 w6 show ?thesis by blast
qed


section \<open>The dispatch loop: events without a receiver, completions\<close>

lemma run_iter_no_window:
  assumes "event_window ev = Some (xw, destroy)" "windows s xw = None"
  shows "run_iter s (Inr ev) =
     Inr (do_call (LogPrintf (''x11driver: no window found for event '' @ type_name ev)) s)"
proof -
  have u: "(windows s)(xw := None) = windows s"
    using assms(2) by (rule fun_upd_idem)
  have "s\<lparr>windows := windows s\<rparr> = s" by simp
  with assms u show ?thesis
    by (cases ev) (simp_all add: run_iter_def Let_def)
qed

lemma run_iter_deliver:
  assumes "event_window ev = Some (xw, False)" "windows s xw = Some w"
    "\<not> chan_closed s (w_xevents w)"
  shows "run_iter s (Inr ev) =
     Inr (do_call (ChanSend (w_xevents w) ev)
            (s\<lparr>chan_queue := (chan_queue s)(w_xevents w := chan_queue s (w_xevents w) @ [ev])\<rparr>))"
  using assms by (cases ev) (simp_all add: run_iter_def Let_def chan_send_def)

lemma run_iter_no_upload:
  assumes "uploads s sq = None"
  shows "run_iter s (Inr (ShmCompletionEvent sq)) =
     Inr (do_call (LogPrintf ''x11driver: no matching upload for a SHM completion event'') s)"
  using assms by (simp add: run_iter_def handleCompletion_def handleCompletion_with_def)

text \<open>
  C8: an event for a window id that the window table does not hold, and a completion
  event for a sequence number that the upload table does not hold, are logged and
  dropped: the pass returns without a panic, the state changes by the log line only, the
  loop goes on with the next result, and an event that follows for a registered window is
  delivered on its channel.
\<close>

theorem run_drops_unroutable:
  "(event_window ev = Some (xw, destroy) \<and> windows s xw = None \<longrightarrow>
      run_iter s (Inr ev) =
        Inr (do_call (LogPrintf (''x11driver: no window found for event '' @ type_name ev)) s) \<and>
      run s (Inr ev # rest) =
        run (do_call (LogPrintf (''x11driver: no window found for event '' @ type_name ev)) s)
          rest \<and>
      (\<forall>ev' xw' w'. event_window ev' = Some (xw', False) \<and> windows s xw' = Some w' \<and>
           \<not> chan_closed s (w_xevents w') \<longrightarrow>
         (\<exists>s'. run s [Inr ev, Inr ev'] = Inr s' \<and>
            chan_queue s' (w_xevents w') = chan_queue s (w_xevents w') @ [ev']))) \<and>
   (uploads s sq = None \<longrightarrow>
      run_iter s (Inr (ShmCompletionEvent sq)) =
        Inr (do_call
               (LogPrintf ''x11driver: no matching upload for a SHM completion event'') s) \<and>
      run s (Inr (ShmCompletionEvent sq) # rest) =
        run (do_call
               (LogPrintf ''x11driver: no matching upload for a SHM completion event'') s)
          rest \<and>
      (\<forall>ev' xw' w'. event_window ev' = Some (xw', False) \<and> windows s xw' = Some w' \<and>
           \<not> chan_closed s (w_xevents w') \<longrightarrow>
         (\<exists>s'. run s [Inr (ShmCompletionEvent sq), Inr ev'] = Inr s' \<and>
            chan_queue s' (w_xevents w') = chan_queue s (w_xevents w') @ [ev'])))"
proof (intro conjI allI impI)
  assume a: "event_window ev = Some (xw, destroy) \<and> windows s xw = None"
  then show "run_iter s (Inr ev) =
      Inr (do_call (LogPrintf (''x11driver: no window found for event '' @ type_name ev)) s)"
    by (intro run_iter_no_window) auto
  then show "run s (Inr ev # rest) =
      run (do_call (LogPrintf (''x11driver: no window found for event '' @ type_name ev)) s) rest"
    by simp
next
  fix ev' xw' w'
  assume a: "event_window ev = Some (xw, destroy) \<and> windows s xw = None"
    and b: "event_window ev' = Some (xw', False) \<and> windows s xw' = Some w' \<and>
           \<not> chan_closed s (w_xevents w')"
  let ?s1 = "do_call (LogPrintf (''x11driver: no window found for event '' @ type_name ev)) s"
  from a have 1: "run_iter s (Inr ev) = Inr ?s1"
    by (intro run_iter_no_window) auto
  from b have 2: "run_iter ?s1 (Inr ev') =
     Inr (do_call (ChanSend (w_xevents w') ev')
       (?s1\<lparr>chan_queue :=
          (chan_queue ?s1)(w_xevents w' := chan_queue ?s1 (w_xevents w') @ [ev'])\<rparr>))"
    by (intro run_iter_deliver) (auto simp: do_call_def)
  have "run s [Inr ev, Inr ev'] =
     Inr (do_call (ChanSend (w_xevents w') ev')
       (?s1\<lparr>chan_queue :=
          (chan_queue ?s1)(w_xevents w' := chan_queue ?s1 (w_xevents w') @ [ev'])\<rparr>))"
    by (simp only: run.simps 1 2 sum.case)
  then show "\<exists>s'. run s [Inr ev, Inr ev'] = Inr s' \<and>
            chan_queue s' (w_xevents w') = chan_queue s (w_xevents w') @ [ev']"
    by (simp add: do_call_def)
next
  assume a: "uploads s sq = None"
  then show "run_iter s (Inr (ShmCompletionEvent sq)) =
      Inr (do_call (LogPrintf ''x11driver: no matching upload for a SHM completion event'') s)"
    by (rule run_iter_no_upload)
  then show "run s (Inr (ShmCompletionEvent sq) # rest) =
      run (do_call (LogPrintf ''x11driver: no matching upload for a SHM completion event'') s)
        rest"
    by simp
next
  fix ev' xw' w'
  assume a: "uploads s sq = None"
    and b: "event_window ev' = Some (xw', False) \<and> windows s xw' = Some w' \<and>
           \<not> chan_closed s (w_xevents w')"
  let ?s1 = "do_call (LogPrintf ''x11driver: no matching upload for a SHM completion event'') s"
  from a have 1: "run_iter s (Inr (ShmCompletionEvent sq)) = Inr ?s1"
    by (rule run_iter_no_upload)
  from b have 2: "run_iter ?s1 (Inr ev') =
     Inr (do_call (ChanSend (w_xevents w') ev')
       (?s1\<lparr>chan_queue :=
          (chan_queue ?s1)(w_xevents w' := chan_queue ?s1 (w_xevents w') @ [ev'])\<rparr>))"
    by (intro run_iter_deliver) (auto simp: do_call_def)
  have "run s [Inr (ShmCompletionEvent sq), Inr ev'] =
     Inr (do_call (ChanSend (w_xevents w') ev')
       (?s1\<lparr>chan_queue :=
          (chan_queue ?s1)(w_xevents w' := chan_queue ?s1 (w_xevents w') @ [ev'])\<rparr>))"
    by (simp only: run.simps 1 2 sum.case)
  then show "\<exists>s'. run s [Inr (ShmCompletionEvent sq), Inr ev'] = Inr s' \<and>
            chan_queue s' (w_xevents w') = chan_queue s (w_xevents w') @ [ev']"
    by (simp add: do_call_def)
qed

lemma demo_window_screen_eq:
  "windows demo_window_screen = [9 \<mapsto> demo_window]"
  "chan_closed demo_window_screen = (\<lambda>c. False)"
  "chan_queue demo_window_screen = (\<lambda>c. [])"
  "uploads demo_window_screen = Map.empty"
proof -
  have ids: "newWindowId_res demo_window_env = Inr 9" "newGcontextId_res demo_window_env = Inr 10"
    "newPictureId_res demo_window_env = Inr 11"
    by (simp_all add: demo_window_env_def)
  have d: "RootDepth (xsi demo_screen) = 24" "next_chan demo_screen = 0"
    "windows demo_screen = Map.empty" "chan_closed demo_screen = (\<lambda>c. False)"
    "chan_queue demo_screen = (\<lambda>c. [])" "uploads demo_screen = Map.empty"
    by (simp_all add: demo_screen_def new_screen_def)
  have p: "pump_Make_res demo_window_env = 0" by (simp add: demo_window_env_def)
  show "windows demo_window_screen = [9 \<mapsto> demo_window]"
    unfolding demo_window_screen_def NewWindow_ids_ok [OF ids] NewWindow_create_eq
    using d p by (simp add: demo_window_def)
  show "chan_closed demo_window_screen = (\<lambda>c. False)"
    unfolding demo_window_screen_def NewWindow_ids_ok [OF ids] NewWindow_create_eq
    using d by (simp add: fun_eq_iff)
  show "chan_queue demo_window_screen = (\<lambda>c. [])"
    unfolding demo_window_screen_def NewWindow_ids_ok [OF ids] NewWindow_create_eq
    using d by (simp add: fun_eq_iff)
  show "uploads demo_window_screen = Map.empty"
    unfolding demo_window_screen_def NewWindow_ids_ok [OF ids] NewWindow_create_eq
    using d by simp
qed

theorem run_drops_unroutable_witness:
  "(\<exists>s'. run demo_window_screen [Inr (DestroyNotifyEvent 77), Inr (ExposeEvent 9)] = Inr s' \<and>
      chan_queue s' 0 = [ExposeEvent 9]) \<and>
   (\<exists>s'. run demo_window_screen [Inr (ShmCompletionEvent 5), Inr (KeyPressEvent 9)] = Inr s' \<and>
      chan_queue s' 0 = [KeyPressEvent 9]) \<and>
   run_iter demo_window_screen (Inr (DestroyNotifyEvent 77)) =
     Inr (do_call (LogPrintf ''x11driver: no window found for event xproto.DestroyNotifyEvent'')
            demo_window_screen)"
proof -
  note e = demo_window_screen_eq
  have a: "event_window (DestroyNotifyEvent 77) = Some (77, True) \<and>
      windows demo_window_screen 77 = None"
    by (simp add: e)
  have b: "event_window (ExposeEvent 9) = Some (9, False) \<and>
      windows demo_window_screen 9 = Some demo_window \<and>
      \<not> chan_closed demo_window_screen (w_xevents demo_window)"
    by (simp add: e)
  have b': "event_window (KeyPressEvent 9) = Some (9, False) \<and>
      windows demo_window_screen 9 = Some demo_window \<and>
      \<not> chan_closed demo_window_screen (w_xevents demo_window)"
    by (simp add: e)
  have c: "uploads demo_window_screen 5 = None" by (simp add: e)
  have w: "w_xevents demo_window = 0" by (simp add: demo_window_def)
  note t = run_drops_unroutable [where ev = "DestroyNotifyEvent 77" and xw = 77 and
      destroy = True and s = demo_window_screen and sq = 5 and rest = "[]"]
  from t a b have "\<exists>s'. run demo_window_screen [Inr (DestroyNotifyEvent 77), Inr (ExposeEvent 9)] =
      Inr s' \<and> chan_queue s' (w_xevents demo_window) =
        chan_queue demo_window_screen (w_xevents demo_window) @ [ExposeEvent 9]"
    by blast
  moreover from t c b' have "\<exists>s'. run demo_window_screen
      [Inr (ShmCompletionEvent 5), Inr (KeyPressEvent 9)] = Inr s' \<and>
      chan_queue s' (w_xevents demo_window) =
        chan_queue demo_window_screen (w_xevents demo_window) @ [KeyPressEvent 9]"
    by blast
  moreover from t a have "run_iter demo_window_screen (Inr (DestroyNotifyEvent 77)) =
     Inr (do_call (LogPrintf (''x11driver: no window found for event '' @
            type_name (DestroyNotifyEvent 77))) demo_window_screen)"
    by blast
  ultimately show ?thesis by (simp add: e w)
qed


lemma demo_upload_screen_eq:
  "uploads demo_upload_screen = [5 \<mapsto> demo_pending]"
  "\<exists>b. bufheap demo_upload_screen 0 = Some b"
proof -
  have v: "\<not> invalid_size \<lparr>X = 10, Y = 10\<rparr>"
    by (simp add: invalid_size_iff)
  have e: "newSegId_res demo_buffer_env = Inr 7" "shmOpen_res demo_buffer_env = Inr (5, 4096)"
    by (simp_all add: demo_buffer_env_def)
  have n: "next_buf demo_screen = 0" by (simp add: demo_screen_def new_screen_def)
  show "uploads demo_upload_screen = [5 \<mapsto> demo_pending]"
    unfolding demo_upload_screen_def NewBuffer_valid [OF v e] by simp
  show "\<exists>b. bufheap demo_upload_screen 0 = Some b"
    unfolding demo_upload_screen_def NewBuffer_valid [OF v e] using n by simp
qed

text \<open>
  C1: the claim has the entry removed when its completion event is processed; the code
  does not remove it. Whatever \<^verbatim>\<open>postUpload\<close> does, the upload table that
  \<open>handleCompletion\<close> leaves is the one that \<^verbatim>\<open>postUpload\<close> left, and the only call
  it adds is the send to the sender of the entry. With the \<^verbatim>\<open>postUpload\<close> of the
  specification the table is unchanged: the entry is still present after its completion
  event, so a second completion event for the same sequence number finds it and sends to
  the sender again. An entry whose buffer exists is processed without a panic and its
  buffer is marked idle.
\<close>

theorem handleCompletion_never_removes:
  "(\<forall>post s'. uploads s sq = Some c \<and> handleCompletion_with post s sq = Inr s' \<longrightarrow>
      (\<exists>p s1. ev_Buffer (event c) = BufferImplPtr p \<and> post p s = Inr s1 \<and>
         uploads s' = uploads s1 \<and>
         trace s' = trace s1 @
           (case sender c of None \<Rightarrow> [] | Some r \<Rightarrow> [GoSend r (event c)]))) \<and>
   (\<forall>s'. uploads s sq = Some c \<and> handleCompletion s sq = Inr s' \<longrightarrow>
      uploads s' = uploads s \<and> uploads s' sq = Some c \<and>
      trace s' = trace s @
        (case sender c of None \<Rightarrow> [] | Some r \<Rightarrow> [GoSend r (event c)])) \<and>
   (\<forall>p b. uploads s sq = Some c \<and> ev_Buffer (event c) = BufferImplPtr p \<and>
        bufheap s p = Some b \<longrightarrow>
      (\<exists>s'. handleCompletion s sq = Inr s' \<and>
         bufheap s' p = Some (b\<lparr>b_uploading := False\<rparr>)))"
proof (intro conjI allI impI)
  fix post s'
  assume "uploads s sq = Some c \<and> handleCompletion_with post s sq = Inr s'"
  then show "\<exists>p s1. ev_Buffer (event c) = BufferImplPtr p \<and> post p s = Inr s1 \<and>
         uploads s' = uploads s1 \<and>
         trace s' = trace s1 @
           (case sender c of None \<Rightarrow> [] | Some r \<Rightarrow> [GoSend r (event c)])"
    by (auto simp: handleCompletion_with_def do_call_def
        split: Buffer.splits sum.splits option.splits)
next
  fix s'
  assume a: "uploads s sq = Some c \<and> handleCompletion s sq = Inr s'"
  then have r: "uploads s' = uploads s \<and>
      trace s' = trace s @
        (case sender c of None \<Rightarrow> [] | Some r \<Rightarrow> [GoSend r (event c)])"
    by (auto simp: handleCompletion_def handleCompletion_with_def postUpload_def do_call_def
        split: Buffer.splits sum.splits option.splits)
  from r show "uploads s' = uploads s" by blast
  from r a show "uploads s' sq = Some c" by simp
  from r show "trace s' = trace s @
        (case sender c of None \<Rightarrow> [] | Some r \<Rightarrow> [GoSend r (event c)])" by blast
next
  fix p b
  assume "uploads s sq = Some c \<and> ev_Buffer (event c) = BufferImplPtr p \<and> bufheap s p = Some b"
  then show "\<exists>s'. handleCompletion s sq = Inr s' \<and>
         bufheap s' p = Some (b\<lparr>b_uploading := False\<rparr>)"
    by (cases "sender c")
      (simp_all add: handleCompletion_def handleCompletion_with_def postUpload_def do_call_def)
qed

theorem handleCompletion_never_removes_witness:
  "\<exists>s1 s2. handleCompletion demo_upload_screen 5 = Inr s1 \<and>
      uploads s1 5 = Some demo_pending \<and>
      handleCompletion s1 5 = Inr s2 \<and>
      uploads s2 5 = Some demo_pending \<and>
      run demo_upload_screen [Inr (ShmCompletionEvent 5), Inr (ShmCompletionEvent 5)] =
        Inr s2 \<and>
      trace s2 = trace demo_upload_screen @
        [GoSend 1 (event demo_pending), GoSend 1 (event demo_pending)]"
proof -
  from demo_upload_screen_eq(2) obtain b where b: "bufheap demo_upload_screen 0 = Some b"
    by blast
  have u: "uploads demo_upload_screen 5 = Some demo_pending"
    by (simp add: demo_upload_screen_eq(1))
  have eb: "ev_Buffer (event demo_pending) = BufferImplPtr 0"
    and sn: "sender demo_pending = Some 1"
    by (simp_all add: demo_pending_def)
  note t1 = handleCompletion_never_removes [of demo_upload_screen 5 demo_pending]
  from t1 u eb b obtain s1 where s1: "handleCompletion demo_upload_screen 5 = Inr s1"
    and h1: "bufheap s1 0 = Some (b\<lparr>b_uploading := False\<rparr>)"
    by blast
  from t1 u s1 have k1: "uploads s1 5 = Some demo_pending"
    "trace s1 = trace demo_upload_screen @
       (case sender demo_pending of None \<Rightarrow> [] | Some r \<Rightarrow> [GoSend r (event demo_pending)])"
    by blast+
  note t2 = handleCompletion_never_removes [of s1 5 demo_pending]
  from t2 k1(1) eb h1 obtain s2 where s2: "handleCompletion s1 5 = Inr s2"
    by blast
  from t2 k1(1) s2 have k2: "uploads s2 5 = Some demo_pending"
    "trace s2 = trace s1 @
       (case sender demo_pending of None \<Rightarrow> [] | Some r \<Rightarrow> [GoSend r (event demo_pending)])"
    by blast+
  have r: "run demo_upload_screen [Inr (ShmCompletionEvent 5), Inr (ShmCompletionEvent 5)] =
      Inr s2"
    by (simp add: run_iter_def s1 s2)
  have "trace s2 = trace demo_upload_screen @
      [GoSend 1 (event demo_pending), GoSend 1 (event demo_pending)]"
    using k1(2) k2(2) sn by simp
  with s1 k1(1) s2 k2(1) r show ?thesis by blast
qed


section \<open>The window table and the channels over a schedule\<close>

lemma closed_chans_append: "closed_chans (xs @ ys) = closed_chans xs @ closed_chans ys"
  by (induction xs rule: closed_chans.induct) simp_all

lemma same_channels_refl: "same_channels s s"
  by (simp add: same_channels_def)

lemma run_iter_window_event:
  assumes "event_window ev = Some (xw, destroy)"
  shows "run_iter s (Inr ev) =
     (case windows s xw of
        None \<Rightarrow> Inr (do_call (LogPrintf
                  (''x11driver: no window found for event '' @ type_name ev)) s)
      | Some wi \<Rightarrow>
          if destroy then chan_close (w_xevents wi) (s\<lparr>windows := (windows s)(xw := None)\<rparr>)
          else chan_send (w_xevents wi) ev s)"
proof (cases "windows s xw")
  case None
  with run_iter_no_window [OF assms] show ?thesis by simp
next
  case (Some wi)
  with assms show ?thesis
    by (cases ev) (simp_all add: run_iter_def Let_def)
qed

lemma destroy_event:
  assumes "event_window ev = Some (xw, True)"
  shows "ev = DestroyNotifyEvent xw"
  using assms by (cases ev) simp_all

lemma run_iter_effect:
  assumes "run_iter s r = Inr s'"
  shows "same_channels s s' \<or>
     (\<exists>xw w. r = Inr (DestroyNotifyEvent xw) \<and> window_destroyed s xw w s')"
proof (cases r)
  case (Inl err)
  with assms show ?thesis
    by (auto simp: run_iter_def do_call_def same_channels_def closed_chans_append)
next
  case (Inr ev)
  show ?thesis
  proof (cases "event_window ev")
    case None
    then consider sq where "ev = ShmCompletionEvent sq" | n where "ev = OtherEvent n"
      by (cases ev) simp_all
    then show ?thesis
    proof cases
      case 1
      with assms Inr show ?thesis
        by (auto simp: run_iter_def handleCompletion_def handleCompletion_with_def postUpload_def do_call_def
            same_channels_def closed_chans_append split: option.splits Buffer.splits)
    next
      case 2
      with assms Inr show ?thesis
        by (auto simp: run_iter_def same_channels_def)
    qed
  next
    case (Some a)
    obtain xw destroy where a: "a = (xw, destroy)" by (cases a)
    note ev = Some [unfolded a]
    from assms Inr have "run_iter s (Inr ev) = Inr s'" by simp
    note ri = this [unfolded run_iter_window_event [OF ev]]
    show ?thesis
    proof (cases "windows s xw")
      case None
      with ri show ?thesis
        by (auto simp: do_call_def same_channels_def closed_chans_append)
    next
      case w: (Some w)
      show ?thesis
      proof (cases destroy)
        case True
        with ev have d: "ev = DestroyNotifyEvent xw" by (simp add: destroy_event)
        from ri w True have "window_destroyed s xw w s'"
          by (auto simp: chan_close_def do_call_def window_destroyed_def closed_chans_append
              split: if_splits)
        with Inr d show ?thesis by blast
      next
        case False
        with ri w have "same_channels s s'"
          by (auto simp: chan_send_def do_call_def same_channels_def closed_chans_append
              split: if_splits)
        then show ?thesis ..
      qed
    qed
  qed
qed

lemma run_iter_panic:
  assumes "run_iter s r = Inl p" "p = CloseOfClosedChannel \<or> p = SendOnClosedChannel"
  shows "\<exists>xw w. windows s xw = Some w \<and> chan_closed s (w_xevents w)"
proof (cases r)
  case (Inl err)
  with assms show ?thesis by (simp add: run_iter_def)
next
  case (Inr ev)
  show ?thesis
  proof (cases "event_window ev")
    case None
    then consider sq where "ev = ShmCompletionEvent sq" | n where "ev = OtherEvent n"
      by (cases ev) simp_all
    then show ?thesis
    proof cases
      case 1
      with assms Inr show ?thesis
        by (auto simp: run_iter_def handleCompletion_def handleCompletion_with_def postUpload_def
            split: option.splits Buffer.splits)
    next
      case 2
      with assms Inr show ?thesis by (simp add: run_iter_def)
    qed
  next
    case (Some a)
    obtain xw destroy where a: "a = (xw, destroy)" by (cases a)
    note ev = Some [unfolded a]
    from assms Inr have "run_iter s (Inr ev) = Inl p" by simp
    note ri = this [unfolded run_iter_window_event [OF ev]]
    from ri assms(2) show ?thesis
      by (auto simp: chan_close_def chan_send_def split: option.splits if_splits)
  qed
qed

lemma NewBuffer_effect:
  assumes "NewBuffer env sz s = Inr (r, s')"
  shows "same_channels s s'"
  using assms
  by (auto simp: NewBuffer_def NewBuffer_body_def NewBuffer_deferred_def slice_array_def
      do_call_def Let_def same_channels_def closed_chans_append
      split: sum.splits if_splits prod.splits)

lemma NewBuffer_panic:
  assumes "NewBuffer env sz s = Inl p"
  shows "p = SliceBoundsOutOfRange"
  using assms
  by (auto simp: NewBuffer_def NewBuffer_body_def NewBuffer_deferred_def slice_array_def
      Let_def split: sum.splits if_splits prod.splits)


lemma closed_chans_none:
  assumes "\<forall>c. ChanClose c \<notin> set xs"
  shows "closed_chans xs = []"
  using assms by (induction xs rule: closed_chans.induct) auto

lemma NewWindow_no_panic: "NewWindow env opts s \<noteq> Inl p"
proof (cases "newWindowId_res env")
  case (Inl err)
  then show ?thesis by (simp add: NewWindow_def Let_def)
next
  case xw: (Inr xw)
  show ?thesis
  proof (cases "newGcontextId_res env")
    case (Inl err)
    with xw show ?thesis by (simp add: NewWindow_def Let_def)
  next
    case xg: (Inr xg)
    show ?thesis
    proof (cases "newPictureId_res env")
      case (Inl err)
      with xw xg show ?thesis by (simp add: NewWindow_def Let_def)
    next
      case xp: (Inr xp)
      show ?thesis
        unfolding NewWindow_ids_ok [OF xw xg xp] NewWindow_create_eq by simp
    qed
  qed
qed

lemma NewWindow_error_effect:
  assumes "NewWindow env opts s = Inr (Inl e, s')"
  shows "same_channels s s'"
proof (cases "newWindowId_res env")
  case (Inl err)
  with assms show ?thesis
    by (auto simp: NewWindow_def do_call_def Let_def same_channels_def closed_chans_append)
next
  case xw: (Inr xw)
  show ?thesis
  proof (cases "newGcontextId_res env")
    case (Inl err)
    with assms xw show ?thesis
      by (auto simp: NewWindow_def do_call_def Let_def same_channels_def closed_chans_append)
  next
    case xg: (Inr xg)
    show ?thesis
    proof (cases "newPictureId_res env")
      case (Inl err)
      with assms xw xg show ?thesis
        by (auto simp: NewWindow_def do_call_def Let_def same_channels_def closed_chans_append)
    next
      case xp: (Inr xp)
      from assms show ?thesis
        unfolding NewWindow_ids_ok [OF xw xg xp] NewWindow_create_eq
        by (auto simp: same_channels_def closed_chans_append split: if_splits)
    qed
  qed
qed

lemma NewWindow_success_effect:
  assumes "NewWindow env opts s = Inr (Inr w, s')"
  shows "window_registered s w s'"
proof -
  note f = NewWindow_success_fields [OF assms]
  from f(7) obtain pre post c where t: "trace s' = trace s @ pre @ c # post"
    and n: "\<forall>c. ChanClose c \<notin> set (pre @ post)" and c: "is_CreateWindow c"
    by (auto simp: is_CreateWindow_def)
  from c have "closed_chans [c] = []" by (cases c) (simp_all add: is_CreateWindow_def)
  moreover from n have "closed_chans pre = []" "closed_chans post = []"
    by (simp_all add: closed_chans_none)
  ultimately have "closed_chans (pre @ [c] @ post) = []"
    by (simp only: closed_chans_append append_Nil)
  with t have "closed_chans (trace s') = closed_chans (trace s)"
    by (simp add: closed_chans_append)
  with f show ?thesis by (simp add: window_registered_def)
qed

lemma exec_step_effect:
  assumes "exec_step s x = Inr s'"
  shows "same_channels s s' \<or>
     (\<exists>xw w. x = Dispatch (Inr (DestroyNotifyEvent xw)) \<and> window_destroyed s xw w s') \<or>
     (\<exists>env opts w. x = CallNewWindow env opts \<and> newWindowId_res env = Inr (w_xw w) \<and>
        window_registered s w s')"
proof (cases x)
  case (Dispatch r)
  with assms run_iter_effect [of s r s'] show ?thesis by auto
next
  case (CallNewWindow env opts)
  with assms obtain res where r: "NewWindow env opts s = Inr (res, s')"
    by (auto split: sum.splits)
  show ?thesis
  proof (cases res)
    case (Inl e)
    with r show ?thesis by (auto dest: NewWindow_error_effect)
  next
    case (Inr w)
    with r have "window_registered s w s'" "newWindowId_res env = Inr (w_xw w)"
      by (auto dest: NewWindow_success_effect NewWindow_success_fields(1))
    with CallNewWindow show ?thesis by blast
  qed
next
  case (CallNewBuffer env sz)
  with assms show ?thesis by (auto split: sum.splits dest: NewBuffer_effect)
qed

lemma chan_inv_same:
  assumes "chan_inv s" "same_channels s s'"
  shows "chan_inv s'"
  using assms by (simp add: chan_inv_def same_channels_def)

lemma chan_inv_open:
  assumes "chan_inv s" "windows s y = Some v"
  shows "w_xevents v < next_chan s" "\<not> chan_closed s (w_xevents v)"
  using assms unfolding chan_inv_def by blast+

lemma chan_inv_inj:
  assumes "chan_inv s" "windows s y = Some v" "windows s y' = Some v'"
    "w_xevents v = w_xevents v'"
  shows "y = y'"
  using assms unfolding chan_inv_def by blast

lemma chan_inv_closed:
  assumes "chan_inv s" "c \<in> set (closed_chans (trace s))"
  shows "c < next_chan s"
  using assms unfolding chan_inv_def by blast

lemma chan_invI:
  assumes "\<And>y v. windows s y = Some v \<Longrightarrow>
      w_xevents v < next_chan s \<and> \<not> chan_closed s (w_xevents v)"
    and "\<And>y y' v v'. windows s y = Some v \<Longrightarrow> windows s y' = Some v' \<Longrightarrow>
      w_xevents v = w_xevents v' \<Longrightarrow> y = y'"
    and "\<And>c. c \<in> set (closed_chans (trace s)) \<Longrightarrow> c < next_chan s"
  shows "chan_inv s"
  unfolding chan_inv_def using assms by blast

lemma chan_inv_destroyed:
  assumes "chan_inv s" "window_destroyed s xw w s'"
  shows "chan_inv s'"
proof (rule chan_invI)
  from assms(2) have d: "windows s xw = Some w" "windows s' = (windows s)(xw := None)"
    "chan_closed s' = (chan_closed s)(w_xevents w := True)" "next_chan s' = next_chan s"
    "closed_chans (trace s') = closed_chans (trace s) @ [w_xevents w]"
    by (simp_all add: window_destroyed_def)
  {
    fix y v assume "windows s' y = Some v"
    with d(2) have y: "y \<noteq> xw" "windows s y = Some v" by (auto split: if_splits)
    from chan_inv_inj [OF assms(1) y(2) d(1)] y(1) have "w_xevents v \<noteq> w_xevents w" by blast
    with chan_inv_open [OF assms(1) y(2)] d(3) d(4)
    show "w_xevents v < next_chan s' \<and> \<not> chan_closed s' (w_xevents v)"
      by simp
  }
  {
    fix y y' v v'
    assume "windows s' y = Some v" "windows s' y' = Some v'" "w_xevents v = w_xevents v'"
    with d(2) have "windows s y = Some v" "windows s y' = Some v'" "w_xevents v = w_xevents v'"
      by (auto split: if_splits)
    then show "y = y'" by (rule chan_inv_inj [OF assms(1)])
  }
  {
    fix c assume "c \<in> set (closed_chans (trace s'))"
    with d(5) have "c \<in> set (closed_chans (trace s)) \<or> c = w_xevents w" by auto
    with chan_inv_closed [OF assms(1)] chan_inv_open(1) [OF assms(1) d(1)] d(4)
    show "c < next_chan s'" by auto
  }
qed

lemma chan_inv_registered:
  assumes "chan_inv s" "window_registered s w s'"
  shows "chan_inv s'"
proof (rule chan_invI)
  from assms(2) have d: "w_xevents w = next_chan s" "windows s' = (windows s)(w_xw w \<mapsto> w)"
    "chan_closed s' = (chan_closed s)(next_chan s := False)" "next_chan s' = Suc (next_chan s)"
    "closed_chans (trace s') = closed_chans (trace s)"
    by (simp_all add: window_registered_def)
  have old: "w_xevents v < next_chan s" "w_xevents v \<noteq> w_xevents w"
    "\<not> chan_closed s (w_xevents v)" if "windows s y = Some v" for y v
    using chan_inv_open [OF assms(1) that] d(1) by simp_all
  have pick: "v = w \<or> windows s y = Some v" if "windows s' y = Some v" for y v
    using that d(2) by (auto split: if_splits)
  {
    fix y v assume "windows s' y = Some v"
    from pick [OF this] show "w_xevents v < next_chan s' \<and> \<not> chan_closed s' (w_xevents v)"
    proof
      assume "v = w" with d show ?thesis by simp
    next
      assume "windows s y = Some v"
      from old [OF this] d show ?thesis by simp
    qed
  }
  {
    fix y y' v v'
    assume a: "windows s' y = Some v" "windows s' y' = Some v'" "w_xevents v = w_xevents v'"
    show "y = y'"
    proof (cases "y = w_xw w")
      case True
      with a(1) d(2) have v: "v = w" by simp
      show ?thesis
      proof (cases "y' = w_xw w")
        case True
        with \<open>y = w_xw w\<close> show ?thesis by simp
      next
        case False
        with a(2) d(2) have "windows s y' = Some v'" by simp
        from old(2) [OF this] a(3) v show ?thesis by simp
      qed
    next
      case False
      with a(1) d(2) have y: "windows s y = Some v" by simp
      show ?thesis
      proof (cases "y' = w_xw w")
        case True
        with a(2) d(2) have "v' = w" by simp
        with old(2) [OF y] a(3) show ?thesis by simp
      next
        case False
        with a(2) d(2) have "windows s y' = Some v'" by simp
        with y a(3) show ?thesis by (blast intro: chan_inv_inj [OF assms(1)])
      qed
    qed
  }
  {
    fix c assume "c \<in> set (closed_chans (trace s'))"
    with d(5) have "c \<in> set (closed_chans (trace s))" by simp
    from chan_inv_closed [OF assms(1) this] d(4) show "c < next_chan s'" by simp
  }
qed

lemma chan_inv_step:
  assumes "chan_inv s" "exec_step s x = Inr s'"
  shows "chan_inv s'"
  using exec_step_effect [OF assms(2)] assms(1)
  by (blast intro: chan_inv_same chan_inv_destroyed chan_inv_registered)


lemma exec_step_no_channel_panic:
  assumes "chan_inv s"
  shows "exec_step s x \<noteq> Inl CloseOfClosedChannel"
proof
  assume p: "exec_step s x = Inl CloseOfClosedChannel"
  show False
  proof (cases x)
    case (Dispatch r)
    with p have "run_iter s r = Inl CloseOfClosedChannel" by simp
    from run_iter_panic [OF this] obtain xw w where
      "windows s xw = Some w" "chan_closed s (w_xevents w)" by blast
    with chan_inv_open(2) [OF assms] show False by blast
  next
    case (CallNewWindow env opts)
    with p NewWindow_no_panic [of env opts s] show False
      by (auto split: sum.splits)
  next
    case (CallNewBuffer env sz)
    with p have "NewBuffer env sz s = Inl CloseOfClosedChannel"
      by (auto split: sum.splits)
    from NewBuffer_panic [OF this] show False by simp
  qed
qed

lemma exec_chan_inv:
  assumes "chan_inv s" "exec s xs = Inr s'"
  shows "chan_inv s'"
  using assms
proof (induction xs arbitrary: s)
  case Nil
  then show ?case by simp
next
  case (Cons x xs)
  from Cons.prems(2) obtain s1 where 1: "exec_step s x = Inr s1" and 2: "exec s1 xs = Inr s'"
    by (auto split: sum.splits)
  from chan_inv_step [OF Cons.prems(1) 1] 2 show ?case by (rule Cons.IH)
qed

lemma exec_no_channel_panic:
  assumes "chan_inv s"
  shows "exec s xs \<noteq> Inl CloseOfClosedChannel"
  using assms
proof (induction xs arbitrary: s)
  case Nil
  then show ?case by simp
next
  case (Cons x xs)
  show ?case
  proof (cases "exec_step s x")
    case (Inl p)
    with exec_step_no_channel_panic [OF Cons.prems, of x] show ?thesis by auto
  next
    case (Inr s1)
    from chan_inv_step [OF Cons.prems Inr] have "chan_inv s1" .
    from Cons.IH [OF this] Inr show ?thesis by simp
  qed
qed

text \<open>A registered window stays, with its channel open, over steps that leave it alone.\<close>

lemma step_keeps_window:
  assumes "chan_inv s" "windows s xw = Some w" "leaves_window xw x" "exec_step s x = Inr s'"
  shows "windows s' xw = Some w \<and>
     (\<exists>zs. closed_chans (trace s') = closed_chans (trace s) @ zs \<and> w_xevents w \<notin> set zs)"
proof -
  from exec_step_effect [OF assms(4)]
  consider "same_channels s s'"
    | y v where "x = Dispatch (Inr (DestroyNotifyEvent y))" "window_destroyed s y v s'"
    | env opts v where "x = CallNewWindow env opts" "newWindowId_res env = Inr (w_xw v)"
        "window_registered s v s'"
    by blast
  then show ?thesis
  proof cases
    case 1
    with assms(2) show ?thesis by (simp add: same_channels_def)
  next
    case 2
    with assms(3) have ne: "y \<noteq> xw" by auto
    from 2(2) have d: "windows s y = Some v" "windows s' = (windows s)(y := None)"
      "closed_chans (trace s') = closed_chans (trace s) @ [w_xevents v]"
      by (simp_all add: window_destroyed_def)
    from chan_inv_inj [OF assms(1) d(1) assms(2)] ne have "w_xevents v \<noteq> w_xevents w"
      by blast
    with d ne assms(2) show ?thesis by simp
  next
    case 3
    with assms(3) have ne: "w_xw v \<noteq> xw" by auto
    from 3(3) have "windows s' = (windows s)(w_xw v \<mapsto> v)"
      "closed_chans (trace s') = closed_chans (trace s)"
      by (simp_all add: window_registered_def)
    with ne assms(2) show ?thesis by simp
  qed
qed

lemma step_keeps_window_count:
  assumes "chan_inv s" "windows s xw = Some w" "leaves_window xw x" "exec_step s x = Inr s'"
  shows "count_list (closed_chans (trace s')) (w_xevents w) =
     count_list (closed_chans (trace s)) (w_xevents w)"
proof -
  from step_keeps_window [OF assms] obtain zs where
    "closed_chans (trace s') = closed_chans (trace s) @ zs" "w_xevents w \<notin> set zs"
    by blast
  then show ?thesis by (simp add: count_list_0_iff)
qed

lemma exec_keeps_window:
  assumes "chan_inv s" "windows s xw = Some w" "\<forall>x\<in>set xs. leaves_window xw x"
    "exec s xs = Inr s'"
  shows "windows s' xw = Some w \<and>
     count_list (closed_chans (trace s')) (w_xevents w) =
       count_list (closed_chans (trace s)) (w_xevents w)"
  using assms
proof (induction xs arbitrary: s)
  case Nil
  then show ?case by simp
next
  case (Cons x xs)
  from Cons.prems(4) obtain s1 where 1: "exec_step s x = Inr s1" and 2: "exec s1 xs = Inr s'"
    by (auto split: sum.splits)
  from Cons.prems(3) have l: "leaves_window xw x" "\<forall>x\<in>set xs. leaves_window xw x"
    by simp_all
  from step_keeps_window [OF Cons.prems(1,2) l(1) 1] have w: "windows s1 xw = Some w"
    by blast
  from Cons.IH [OF chan_inv_step [OF Cons.prems(1) 1] w l(2) 2]
    step_keeps_window_count [OF Cons.prems(1,2) l(1) 1]
  show ?case by simp
qed

text \<open>A channel that no registered window holds is never closed again.\<close>

lemma step_retired:
  assumes "chan_inv s" "retired s c" "exec_step s x = Inr s'"
  shows "retired s' c \<and> chan_closed s' c = chan_closed s c \<and>
     count_list (closed_chans (trace s')) c = count_list (closed_chans (trace s)) c"
proof -
  from assms(2) have r: "c < next_chan s" "\<And>y v. windows s y = Some v \<Longrightarrow> w_xevents v \<noteq> c"
    by (auto simp: retired_def)
  from exec_step_effect [OF assms(3)]
  consider "same_channels s s'"
    | y v where "window_destroyed s y v s'"
    | v where "window_registered s v s'"
    by blast
  then show ?thesis
  proof cases
    case 1
    with assms(2) show ?thesis by (simp add: same_channels_def retired_def)
  next
    case 2
    then have d: "windows s y = Some v" "windows s' = (windows s)(y := None)"
      "chan_closed s' = (chan_closed s)(w_xevents v := True)" "next_chan s' = next_chan s"
      "closed_chans (trace s') = closed_chans (trace s) @ [w_xevents v]"
      by (simp_all add: window_destroyed_def)
    from r(2) [OF d(1)] have ne: "w_xevents v \<noteq> c" .
    have "retired s' c"
      unfolding retired_def d using r by (auto split: if_splits)
    with ne d show ?thesis by simp
  next
    case 3
    then have d: "w_xevents v = next_chan s" "windows s' = (windows s)(w_xw v \<mapsto> v)"
      "chan_closed s' = (chan_closed s)(next_chan s := False)"
      "next_chan s' = Suc (next_chan s)"
      "closed_chans (trace s') = closed_chans (trace s)"
      by (simp_all add: window_registered_def)
    have "retired s' c"
      unfolding retired_def d(2-5) using r d(1) by (auto split: if_splits)
    with r(1) d show ?thesis by simp
  qed
qed

lemma exec_retired:
  assumes "chan_inv s" "retired s c" "exec s xs = Inr s'"
  shows "chan_closed s' c = chan_closed s c \<and>
     count_list (closed_chans (trace s')) c = count_list (closed_chans (trace s)) c"
  using assms
proof (induction xs arbitrary: s)
  case Nil
  then show ?case by simp
next
  case (Cons x xs)
  from Cons.prems(3) obtain s1 where 1: "exec_step s x = Inr s1" and 2: "exec s1 xs = Inr s'"
    by (auto split: sum.splits)
  note st = step_retired [OF Cons.prems(1,2) 1]
  from st have "retired s1 c" by blast
  from Cons.IH [OF chan_inv_step [OF Cons.prems(1) 1] this 2] st show ?case by simp
qed


lemma chan_inv_new_screen: "chan_inv (new_screen si)"
  by (simp add: chan_inv_def new_screen_def)

text \<open>
  C2: a window that \<open>NewWindow\<close> created is found under its id after the call and after
  every schedule of steps that leaves it alone, with its channel open and not yet closed.
  Dispatching its destroy notification then removes it, so the lookup finds nothing, and
  closes its channel: the trace holds one close of that channel. Over every schedule that
  follows, the channel stays closed, the number of its closes stays one, and no step
  panics with a close of a closed channel.
\<close>

theorem window_registry_lifecycle:
  fixes steps :: "'o step list"
  assumes inv: "chan_inv s"
    and new: "NewWindow env opts s = Inr (Inr w, s1)"
    and quiet: "\<forall>x\<in>set steps. leaves_window (w_xw w) x"
    and run: "exec s1 steps = Inr s2"
  shows "windows s1 (w_xw w) = Some w \<and> windows s2 (w_xw w) = Some w \<and>
     \<not> chan_closed s2 (w_xevents w) \<and>
     count_list (closed_chans (trace s2)) (w_xevents w) = 0 \<and>
     (\<exists>s3. run_iter s2 (Inr (DestroyNotifyEvent (w_xw w))) = Inr s3 \<and>
        windows s3 (w_xw w) = None \<and> chan_closed s3 (w_xevents w) \<and>
        count_list (closed_chans (trace s3)) (w_xevents w) = 1 \<and>
        (\<forall>more :: 'o step list.
           exec s3 more \<noteq> Inl CloseOfClosedChannel \<and>
           (\<forall>s4. exec s3 more = Inr s4 \<longrightarrow>
              chan_closed s4 (w_xevents w) \<and>
              count_list (closed_chans (trace s4)) (w_xevents w) = 1)))"
proof -
  let ?xw = "w_xw w" and ?c = "w_xevents w"
  note reg = NewWindow_success_effect [OF new]
  then have r: "?c = next_chan s" "windows s1 = (windows s)(?xw \<mapsto> w)"
    "closed_chans (trace s1) = closed_chans (trace s)"
    by (simp_all add: window_registered_def)
  have inv1: "chan_inv s1" using inv reg by (rule chan_inv_registered)
  have w1: "windows s1 ?xw = Some w" using r(2) by simp
  have "?c \<notin> set (closed_chans (trace s1))"
    using chan_inv_closed [OF inv, of ?c] r(1,3) by auto
  then have c1: "count_list (closed_chans (trace s1)) ?c = 0"
    by (simp add: count_list_0_iff)
  have inv2: "chan_inv s2" using inv1 run by (rule exec_chan_inv)
  from exec_keeps_window [OF inv1 w1 quiet run] c1
  have w2: "windows s2 ?xw = Some w" and c2: "count_list (closed_chans (trace s2)) ?c = 0"
    by simp_all
  note o2 = chan_inv_open [OF inv2 w2]
  have ev: "event_window (DestroyNotifyEvent ?xw) = Some (?xw, True)" by simp
  define s3 where "s3 = do_call (ChanClose ?c)
     (s2\<lparr>windows := (windows s2)(?xw := None),
         chan_closed := (chan_closed s2)(?c := True)\<rparr>)"
  have d: "run_iter s2 (Inr (DestroyNotifyEvent ?xw)) = Inr s3"
    unfolding run_iter_window_event [OF ev] s3_def using w2 o2(2)
    by (simp add: chan_close_def)
  have f3: "windows s3 = (windows s2)(?xw := None)" "chan_closed s3 ?c"
    "next_chan s3 = next_chan s2"
    "closed_chans (trace s3) = closed_chans (trace s2) @ [?c]"
    by (simp_all add: s3_def do_call_def closed_chans_append)
  have c3: "count_list (closed_chans (trace s3)) ?c = 1"
    using f3(4) c2 by simp
  have inv3: "chan_inv s3"
    using inv2 d chan_inv_step [of s2 "Dispatch (Inr (DestroyNotifyEvent ?xw))" s3] by simp
  have ret: "retired s3 ?c"
    unfolding retired_def
  proof (intro conjI allI impI)
    show "?c < next_chan s3" using o2(1) f3(3) by simp
  next
    fix y v assume "windows s3 y = Some v"
    with f3(1) have y: "y \<noteq> ?xw" "windows s2 y = Some v" by (auto split: if_splits)
    from chan_inv_inj [OF inv2 y(2) w2] y(1) show "w_xevents v \<noteq> ?c" by blast
  qed
  have later: "exec s3 more \<noteq> Inl CloseOfClosedChannel \<and>
           (\<forall>s4. exec s3 more = Inr s4 \<longrightarrow>
              chan_closed s4 ?c \<and> count_list (closed_chans (trace s4)) ?c = 1)"
    for more :: "'o step list"
    using exec_no_channel_panic [OF inv3, of more] exec_retired [OF inv3 ret, of more]
      f3(2) c3 by simp
  from w1 w2 o2(2) c2 d f3(1,2) c3 later show ?thesis by auto
qed


theorem window_registry_lifecycle_witness:
  "chan_inv demo_screen \<and>
   NewWindow demo_window_env (None :: unit option) demo_screen =
     Inr (Inr demo_window, demo_window_screen) \<and>
   windows demo_window_screen 9 = Some demo_window \<and>
   (\<exists>s2 s3. exec demo_window_screen demo_steps = Inr s2 \<and>
      windows s2 9 = Some demo_window \<and>
      count_list (closed_chans (trace s2)) 0 = 0 \<and>
      run_iter s2 (Inr (DestroyNotifyEvent 9)) = Inr s3 \<and>
      windows s3 9 = None \<and> chan_closed s3 0 \<and>
      count_list (closed_chans (trace s3)) 0 = 1 \<and>
      exec s3 [Dispatch (Inr (DestroyNotifyEvent 9)) :: unit step] \<noteq>
        Inl CloseOfClosedChannel)"
proof -
  have inv: "chan_inv demo_screen"
    unfolding demo_screen_def by (rule chan_inv_new_screen)
  have ids: "newWindowId_res demo_window_env = Inr 9" "newGcontextId_res demo_window_env = Inr 10"
    "newPictureId_res demo_window_env = Inr 11"
    by (simp_all add: demo_window_env_def)
  have d: "RootDepth (xsi demo_screen) = 24" "next_chan demo_screen = 0"
    by (simp_all add: demo_screen_def new_screen_def)
  have p: "pump_Make_res demo_window_env = 0" by (simp add: demo_window_env_def)
  obtain s1 where new0: "NewWindow demo_window_env (None :: unit option) demo_screen =
      Inr (Inr demo_window, s1)"
    unfolding NewWindow_ids_ok [OF ids] NewWindow_create_eq using d p
    by (simp add: demo_window_def)
  then have "demo_window_screen = s1" by (simp add: demo_window_screen_def)
  with new0 have new: "NewWindow demo_window_env (None :: unit option) demo_screen =
      Inr (Inr demo_window, demo_window_screen)" by simp
  have w: "w_xw demo_window = 9" "w_xevents demo_window = 0" by (simp_all add: demo_window_def)
  have quiet: "\<forall>x\<in>set demo_steps. leaves_window (w_xw demo_window) x"
    by (simp add: demo_steps_def w)
  note e = demo_window_screen_eq
  have a: "event_window (ExposeEvent 9) = Some (9, False)"
    "windows demo_window_screen 9 = Some demo_window"
    "\<not> chan_closed demo_window_screen (w_xevents demo_window)"
    by (simp_all add: e)
  define sA where "sA = do_call (ChanSend (w_xevents demo_window) (ExposeEvent 9))
     (demo_window_screen\<lparr>chan_queue := (chan_queue demo_window_screen)
        (w_xevents demo_window :=
           chan_queue demo_window_screen (w_xevents demo_window) @ [ExposeEvent 9])\<rparr>)"
  have 1: "run_iter demo_window_screen (Inr (ExposeEvent 9)) = Inr sA"
    unfolding sA_def by (rule run_iter_deliver [OF a])
  have b: "event_window (DestroyNotifyEvent 77) = Some (77, True)" "windows sA 77 = None"
    by (simp_all add: sA_def do_call_def e)
  from run_iter_no_window [OF b] obtain sB where
    2: "run_iter sA (Inr (DestroyNotifyEvent 77)) = Inr sB" by blast
  have run: "exec demo_window_screen demo_steps = Inr sB"
    by (simp add: demo_steps_def 1 2)
  from window_registry_lifecycle [OF inv new quiet run]
  obtain s3 where "windows sB 9 = Some demo_window"
    "count_list (closed_chans (trace sB)) 0 = 0"
    "run_iter sB (Inr (DestroyNotifyEvent 9)) = Inr s3"
    "windows s3 9 = None" "chan_closed s3 0" "count_list (closed_chans (trace s3)) 0 = 1"
    "exec s3 [Dispatch (Inr (DestroyNotifyEvent 9)) :: unit step] \<noteq> Inl CloseOfClosedChannel"
    unfolding w by blast
  with inv new a(2) run show ?thesis by blast
qed

end
